theory Spec2Isabelle
  imports Complex_Main "HOL-Library.Word" "HOL-Library.Log_Nat"
begin

unbundle bit_operations_syntax

section \<open>The generator algorithms of \<^verbatim>\<open>rand_bw.py\<close>\<close>

text \<open>
  Python integers are unbounded, so a state is an \<^typ>\<open>int\<close>. Python's \<^verbatim>\<open>%\<close> with a
  positive modulus is the \<open>mod\<close> of HOL (the result is never negative); \<^verbatim>\<open><<\<close> is
  \<^const>\<open>push_bit\<close>, \<^verbatim>\<open>>>\<close> is \<^const>\<open>drop_bit\<close> (arithmetic on negative numbers, as in
  Python), and \<^verbatim>\<open>&\<close>, \<^verbatim>\<open>^\<close> act on the infinite two's complement representation.
  Every step function returns the pair (next state, range).
\<close>

definition lcg :: "int \<Rightarrow> int \<times> int" where
  "lcg s = ((s * 9301 + 49297) mod 233280, 233280)"

definition park_miller :: "int \<Rightarrow> int \<times> int" where
  "park_miller s = ((s * 16807) mod 2147483647, 2147483647)"

text \<open>
  \<^verbatim>\<open>s ^= (s << 13) & 0xFFFFFFFF\<close> masks the shifted term only: the augmented assignment
  evaluates its whole right-hand side first. The three assignments are \<open>s1\<close>, \<open>s2\<close>, \<open>s3\<close>.
\<close>

definition xorshift :: "int \<Rightarrow> int \<times> int" where
  "xorshift s =
     (let s1 = s XOR (push_bit 13 s AND 0xFFFFFFFF);
          s2 = s1 XOR drop_bit 17 s1;
          s3 = s2 XOR (push_bit 5 s2 AND 0xFFFFFFFF)
      in (s3 AND 0xFFFFFFFF, 0xFFFFFFFF))"

definition multiply_with_carry :: "int \<Rightarrow> int \<times> int" where
  "multiply_with_carry s =
     (let a = 4294957665;
          c = drop_bit 32 s AND 0xFFFFFFFF;
          x = s AND 0xFFFFFFFF;
          result = (a * x + c) AND 0xFFFFFFFFFFFFFFFF
      in (result, 0xFFFFFFFFFFFFFFFF))"

text \<open>
  The xorshift recurrence as the specification words it: every intermediate result is
  masked to 32 bits.
\<close>

definition spec_xorshift :: "int \<Rightarrow> int \<times> int" where
  "spec_xorshift s =
     (let s1 = (s XOR push_bit 13 s) AND 0xFFFFFFFF;
          s2 = (s1 XOR drop_bit 17 s1) AND 0xFFFFFFFF;
          s3 = (s2 XOR push_bit 5 s2) AND 0xFFFFFFFF
      in (s3, 0xFFFFFFFF))"

section \<open>Exceptions and the registry\<close>

text \<open>The Python exceptions the modelled code can raise.\<close>

datatype py_error = KeyError string | ZeroDivisionError | OverflowError

text \<open>
  An entry of the module-level dict \<^verbatim>\<open>ALGORITHMS\<close>. The source stores the tint as the text
  \<^verbatim>\<open>"#rrggbb"\<close> and \<^verbatim>\<open>value_to_color\<close> reads the three channels back with
  \<^verbatim>\<open>int(algorithm_color[1:3], 16)\<close> and so on; the model stores the three channel values
  themselves (\<^verbatim>\<open>"#00d4ff"\<close> is \<open>(0, 212, 255)\<close>).
\<close>

record algorithm =
  func :: "int \<Rightarrow> int \<times> int"
  desc :: string
  color :: "int \<times> int \<times> int"

text \<open>The dict in declaration order; \<^verbatim>\<open>ALGORITHMS[name]\<close> is \<open>map_of ALGORITHMS name\<close>.\<close>

definition ALGORITHMS :: "(string \<times> algorithm) list" where
  "ALGORITHMS =
     [(''Linear Congruential (LCG)'',
        \<lparr>func = lcg, desc = ''Classic PRNG used in many systems'',
         color = (0x00, 0xd4, 0xff)\<rparr>),
      (''Park-Miller'',
        \<lparr>func = park_miller, desc = ''Minimal standard, good statistical properties'',
         color = (0x00, 0xff, 0x88)\<rparr>),
      (''Xorshift'',
        \<lparr>func = xorshift, desc = ''Fast bitwise operation-based generator'',
         color = (0xff, 0xaa, 0x00)\<rparr>),
      (''Multiply-with-Carry'',
        \<lparr>func = multiply_with_carry, desc = ''High-quality long-period generator'',
         color = (0xff, 0x44, 0x66)\<rparr>)]"

section \<open>Python floats\<close>

text \<open>
  A Python float is an IEEE 754 binary64 number. A finite one is modelled by a pair
  \<open>(m, e)\<close> of integers that denotes \<open>m * 2 ^ e\<close>; the pair need not be normalised.
  Every operation computes the exact result and rounds it once, to nearest with ties to
  even, to 53 significant bits, or to a multiple of \<open>2 ^ -1074\<close> in the subnormal range.
  A result of magnitude \<open>2 ^ 1024\<close> or more is reported as \<open>OverflowError\<close>: Python raises it
  for \<^verbatim>\<open>int / int\<close> and for the conversion of an \<^verbatim>\<open>int\<close>; a product or sum yields an
  infinity instead, and every float of \<^verbatim>\<open>value_to_color\<close> ends in \<^verbatim>\<open>int(...)\<close>, which raises
  \<open>OverflowError\<close> on an infinity.
\<close>

type_synonym pyfloat = "int \<times> int"

definition valof :: "pyfloat \<Rightarrow> real" where
  "valof x = of_int (fst x) * power_int 2 (snd x)"

text \<open>\<open>m / 2 ^ k\<close> rounded to the nearest integer, ties to the even one.\<close>

definition round_half_even :: "int \<Rightarrow> nat \<Rightarrow> int" where
  "round_half_even m k =
     (let q = m div 2 ^ k; r = m mod 2 ^ k
      in if 2 * r < 2 ^ k then q
         else if 2 ^ k < 2 * r then q + 1
         else if even q then q else q + 1)"

definition fl_overflows :: "int \<Rightarrow> int \<Rightarrow> bool" where
  "fl_overflows m e =
     (if 0 \<le> e then 2 ^ 1024 \<le> \<bar>m\<bar> * 2 ^ nat e else 2 ^ (1024 + nat (- e)) \<le> \<bar>m\<bar>)"

text \<open>The binary64 number nearest to \<open>m * 2 ^ e\<close>: \<open>k\<close> low bits are rounded away.\<close>

definition fl_round :: "int \<Rightarrow> int \<Rightarrow> py_error + pyfloat" where
  "fl_round m e =
     (let k = max (bitlen \<bar>m\<bar> - 53) (- 1074 - e);
          m' = (if k \<le> 0 then m else round_half_even m (nat k));
          e' = (if k \<le> 0 then e else e + k)
      in if fl_overflows m' e' then Inl OverflowError else Inr (m', e'))"

text \<open>\<^verbatim>\<open>float(n)\<close>, the conversion Python applies to an \<^verbatim>\<open>int\<close> operand of a float operation.\<close>

definition fl_of_int :: "int \<Rightarrow> py_error + pyfloat" where
  "fl_of_int n = fl_round n 0"

definition fl_mul :: "pyfloat \<Rightarrow> pyfloat \<Rightarrow> py_error + pyfloat" where
  "fl_mul x y = fl_round (fst x * fst y) (snd x + snd y)"

definition fl_add :: "pyfloat \<Rightarrow> pyfloat \<Rightarrow> py_error + pyfloat" where
  "fl_add x y =
     (let e = min (snd x) (snd y)
      in fl_round (fst x * 2 ^ nat (snd x - e) + fst y * 2 ^ nat (snd y - e)) e)"

text \<open>
  \<^verbatim>\<open>a / b\<close> on two \<^verbatim>\<open>int\<close>s: the correctly rounded quotient. The quotient is computed
  with more than 55 bits and a sticky last bit that records a non-zero remainder, so the
  one rounding of \<^const>\<open>fl_round\<close> is the rounding of the exact quotient.
\<close>

definition int_true_div :: "int \<Rightarrow> int \<Rightarrow> py_error + pyfloat" where
  "int_true_div a b =
     (if b = 0 then Inl ZeroDivisionError
      else
        let a' = a * sgn b; b' = \<bar>b\<bar>;
            sh = nat (bitlen b') + 55;
            q = (a' * 2 ^ sh) div b';
            sticky = (if (a' * 2 ^ sh) mod b' = 0 then 0 else 1)
        in fl_round (2 * q + sticky) (- int sh - 1))"

text \<open>\<^verbatim>\<open>int(x)\<close> on a finite float: truncation towards zero.\<close>

definition fl_trunc :: "pyfloat \<Rightarrow> int" where
  "fl_trunc x =
     (if 0 \<le> snd x then fst x * 2 ^ nat (snd x)
      else sgn (fst x) * (\<bar>fst x\<bar> div 2 ^ nat (- snd x)))"

text \<open>The literals \<^verbatim>\<open>0.1\<close> and \<^verbatim>\<open>0.9\<close>: the binary64 numbers nearest to 1/10 and 9/10.\<close>

definition fl_0_1 :: pyfloat where
  "fl_0_1 = (3602879701896397, - 55)"

definition fl_0_9 :: pyfloat where
  "fl_0_9 = (8106479329266893, - 53)"

section \<open>The colour mapping\<close>

text \<open>Sequencing: an exception raised by a step ends the computation.\<close>

definition bind_err :: "py_error + 'a \<Rightarrow> ('a \<Rightarrow> py_error + 'b) \<Rightarrow> py_error + 'b" where
  "bind_err r f = (case r of Inl err \<Rightarrow> Inl err | Inr x \<Rightarrow> f x)"

text \<open>\<^verbatim>\<open>ratio * 200 + 20\<close>, and \<^verbatim>\<open>base_gray = int(ratio * 200 + 20)\<close>.\<close>

definition gray_level :: "pyfloat \<Rightarrow> py_error + pyfloat" where
  "gray_level ratio =
     bind_err (fl_of_int 200) (\<lambda>c200.
     bind_err (fl_mul ratio c200) (\<lambda>t.
     bind_err (fl_of_int 20) (\<lambda>c20. fl_add t c20)))"

definition base_gray_of :: "pyfloat \<Rightarrow> py_error + int" where
  "base_gray_of ratio = bind_err (gray_level ratio) (\<lambda>u. Inr (fl_trunc u))"

text \<open>
  \<^verbatim>\<open>channel * 0.1 + base_gray * 0.9\<close> for one tint channel, and the \<^verbatim>\<open>int(...)\<close> of it.
\<close>

definition blend_level :: "int \<Rightarrow> int \<Rightarrow> py_error + pyfloat" where
  "blend_level channel base_gray =
     bind_err (fl_of_int channel) (\<lambda>fc.
     bind_err (fl_mul fc fl_0_1) (\<lambda>a.
     bind_err (fl_of_int base_gray) (\<lambda>fb.
     bind_err (fl_mul fb fl_0_9) (\<lambda>b. fl_add a b))))"

definition blend :: "int \<Rightarrow> int \<Rightarrow> py_error + int" where
  "blend channel base_gray = bind_err (blend_level channel base_gray) (\<lambda>u. Inr (fl_trunc u))"

text \<open>
  \<^verbatim>\<open>value_to_color(v, mod, algorithm_color)\<close>. The result is the triple of channel values
  \<open>(min r 255, min g 255, min b 255)\<close> that the source formats as \<^verbatim>\<open>"#rrggbb"\<close>.
\<close>

definition value_to_color :: "int \<Rightarrow> int \<Rightarrow> int \<times> int \<times> int \<Rightarrow> py_error + int \<times> int \<times> int" where
  "value_to_color v md algorithm_color =
     bind_err (int_true_div v md) (\<lambda>ratio.
     bind_err (base_gray_of ratio) (\<lambda>base_gray.
     bind_err (blend (fst algorithm_color) base_gray) (\<lambda>r.
     bind_err (blend (fst (snd algorithm_color)) base_gray) (\<lambda>g.
     bind_err (blend (snd (snd algorithm_color)) base_gray) (\<lambda>b.
       Inr (min r 255, min g 255, min b 255))))))"

section \<open>The application state\<close>

definition GRID_W :: nat where
  "GRID_W = 120"

definition GRID_H :: nat where
  "GRID_H = 120"

definition PIXEL :: int where
  "PIXEL = 5"

text \<open>
  \<^verbatim>\<open>min_val\<close> starts as \<^verbatim>\<open>float('inf')\<close> and is an \<^verbatim>\<open>int\<close> after the first cell.
  \<^verbatim>\<open>min(min_val, s)\<close> returns its first argument unless the second is smaller, and an
  \<^verbatim>\<open>int\<close> is always smaller than the infinity.
\<close>

datatype py_num = Float_inf | Py_int int

fun py_min :: "py_num \<Rightarrow> int \<Rightarrow> py_num" where
  "py_min Float_inf s = Py_int s"
| "py_min (Py_int m) s = Py_int (if s < m then s else m)"

text \<open>The comparison \<^verbatim>\<open>a <= b\<close> of such a value with an \<^verbatim>\<open>int\<close>.\<close>

fun py_num_le :: "py_num \<Rightarrow> int \<Rightarrow> bool" where
  "py_num_le Float_inf b = False"
| "py_num_le (Py_int a) b = (a \<le> b)"

text \<open>An item of the grid canvas, as \<^verbatim>\<open>create_rectangle\<close> receives it.\<close>

record rectangle =
  rect_x1 :: int
  rect_y1 :: int
  rect_x2 :: int
  rect_y2 :: int
  fill :: "int \<times> int \<times> int"

definition create_rectangle :: "nat \<Rightarrow> nat \<Rightarrow> int \<times> int \<times> int \<Rightarrow> rectangle" where
  "create_rectangle x y col =
     \<lparr>rect_x1 = int x * PIXEL, rect_y1 = int y * PIXEL,
      rect_x2 = (int x + 1) * PIXEL, rect_y2 = (int y + 1) * PIXEL, fill = col\<rparr>"

text \<open>
  The five statistics. The source shows each as formatted text through
  \<^verbatim>\<open>_update_stat\<close>; the model keeps the values that are formatted. Before the first run,
  and after \<^verbatim>\<open>_clear_grid\<close>, the panel shows placeholders: \<open>None\<close>.
\<close>

record stats =
  final_value :: int
  iterations :: nat
  min_value :: py_num
  max_value :: int
  generation_time :: real

text \<open>
  The text of the status label: \<^verbatim>\<open>"Generating..."\<close>, the final
  \<^verbatim>\<open>"Generated {n} values using {name}"\<close>, or any other text.
\<close>

datatype status = Generating | Generated nat string | Other_text string

text \<open>The fields of \<^verbatim>\<open>RNGVisualizerPro\<close> that \<^verbatim>\<open>generate_visualization\<close> reads or writes.\<close>

record app =
  current_algorithm :: string
  is_generating :: bool
  status_label :: status
  seed_entry :: string
  grid_canvas :: "rectangle list"
  stats_items :: "stats option"

text \<open>
  What the run takes from outside the program: the built-in \<^verbatim>\<open>int()\<close> applied to the
  entry's text (\<open>None\<close> stands for its \<^verbatim>\<open>ValueError\<close>), the number the random generator
  draws, and the two readings of \<^verbatim>\<open>time.time()\<close>.
\<close>

record env =
  py_int :: "string \<Rightarrow> int option"
  random_draw :: nat
  clock_start :: real
  clock_end :: real

text \<open>\<^verbatim>\<open>random.randint(a, b)\<close>: \<open>a\<close> plus a number below \<open>b - a + 1\<close>.\<close>

definition randint :: "int \<Rightarrow> int \<Rightarrow> nat \<Rightarrow> int" where
  "randint a b draw = a + int draw mod (b - a + 1)"

text \<open>\<^verbatim>\<open>str(n)\<close> of an \<^verbatim>\<open>int\<close>: its decimal digits, after a minus sign when negative.\<close>

fun digits10 :: "nat \<Rightarrow> string" where
  "digits10 n =
     (if n < 10 then [char_of (48 + n)]
      else digits10 (n div 10) @ [char_of (48 + n mod 10)])"

definition py_str :: "int \<Rightarrow> string" where
  "py_str n = (if n < 0 then CHR ''-'' # digits10 (nat (- n)) else digits10 (nat n))"

section \<open>The generation loop\<close>

text \<open>The local variables of the loop, and the canvas it draws on.\<close>

record loop_state =
  cur_s :: int
  last_value :: int
  min_val :: py_num
  max_val :: int
  canvas :: "rectangle list"

text \<open>
  The state before the loop: \<^verbatim>\<open>min_val = float('inf')\<close>, \<^verbatim>\<open>max_val = 0\<close>, \<^verbatim>\<open>s = seed\<close>,
  \<^verbatim>\<open>last_value = s\<close>, on the canvas that \<^verbatim>\<open>delete("all")\<close> has emptied.
\<close>

definition loop_init :: "int \<Rightarrow> loop_state" where
  "loop_init seed =
     \<lparr>cur_s = seed, last_value = seed, min_val = Float_inf, max_val = 0, canvas = []\<rparr>"

text \<open>
  The cells in the order of \<^verbatim>\<open>for y in range(GRID_H): for x in range(GRID_W)\<close>, as pairs
  \<open>(x, y)\<close>.
\<close>

definition grid_cells :: "nat \<Rightarrow> nat \<Rightarrow> (nat \<times> nat) list" where
  "grid_cells w h = concat (map (\<lambda>y. map (\<lambda>x. (x, y)) [0..<w]) [0..<h])"

text \<open>
  The loop body, once per cell. An exception of \<^verbatim>\<open>value_to_color\<close> leaves the loop; the
  rectangles drawn so far stay on the canvas, the local variables are lost.
\<close>

fun generate_cells ::
  "(int \<Rightarrow> int \<times> int) \<Rightarrow> int \<times> int \<times> int \<Rightarrow> (nat \<times> nat) list \<Rightarrow> loop_state
     \<Rightarrow> py_error \<times> rectangle list + loop_state" where
  "generate_cells algo_func algo_color [] ls = Inr ls"
| "generate_cells algo_func algo_color ((x, y) # cells) ls =
     (let s = fst (algo_func (cur_s ls)); md = snd (algo_func (cur_s ls))
      in case value_to_color s md algo_color of
           Inl err \<Rightarrow> Inl (err, canvas ls)
         | Inr col \<Rightarrow>
             generate_cells algo_func algo_color cells
               \<lparr>cur_s = s, last_value = s, min_val = py_min (min_val ls) s,
                max_val = max (max_val ls) s,
                canvas = canvas ls @ [create_rectangle x y col]\<rparr>)"

text \<open>
  The \<^verbatim>\<open>try\<close> block around \<^verbatim>\<open>int(self.seed_entry.get())\<close>: on \<^verbatim>\<open>ValueError\<close> the seed is
  drawn with \<^verbatim>\<open>random.randint(1, 999999)\<close> and the entry's text is replaced by \<^verbatim>\<open>str(seed)\<close>.
\<close>

definition read_seed :: "env \<Rightarrow> app \<Rightarrow> int \<times> app" where
  "read_seed ev st =
     (case py_int ev (seed_entry st) of
        Some seed \<Rightarrow> (seed, st)
      | None \<Rightarrow>
          (let seed = randint 1 999999 (random_draw ev)
           in (seed, st\<lparr>seed_entry := py_str seed\<rparr>)))"

text \<open>
  \<^verbatim>\<open>RNGVisualizerPro.generate_visualization\<close>. The result is the exception that leaves the
  method, if any, and the state of the application afterwards.
\<close>

definition generate_visualization :: "env \<Rightarrow> app \<Rightarrow> py_error option \<times> app" where
  "generate_visualization ev st =
     (if is_generating st then (None, st)
      else
        let st1 = st\<lparr>is_generating := True, status_label := Generating\<rparr>;
            algo_name = current_algorithm st1
        in case map_of ALGORITHMS algo_name of
             None \<Rightarrow> (Some (KeyError algo_name), st1)
           | Some algo \<Rightarrow>
               (let seed = fst (read_seed ev st1);
                    st2 = snd (read_seed ev st1);
                    st3 = st2\<lparr>grid_canvas := []\<rparr>
                in case generate_cells (func algo) (color algo)
                          (grid_cells GRID_W GRID_H) (loop_init seed) of
                     Inl (err, drawn) \<Rightarrow> (Some err, st3\<lparr>grid_canvas := drawn\<rparr>)
                   | Inr ls \<Rightarrow>
                       (None,
                        st3\<lparr>grid_canvas := canvas ls,
                            stats_items :=
                              Some \<lparr>final_value = last_value ls,
                                    iterations = GRID_W * GRID_H,
                                    min_value = min_val ls,
                                    max_value = max_val ls,
                                    generation_time = clock_end ev - clock_start ev\<rparr>,
                            status_label := Generated (GRID_W * GRID_H) algo_name,
                            is_generating := False\<rparr>)))"

text \<open>
  The raw values of a run of \<open>n\<close> cells from state \<open>s\<close>: each is the state the step function
  returns, and the next cell starts from it.
\<close>

fun raw_values :: "(int \<Rightarrow> int \<times> int) \<Rightarrow> nat \<Rightarrow> int \<Rightarrow> int list" where
  "raw_values algo_func 0 s = []"
| "raw_values algo_func (Suc n) s =
     fst (algo_func s) # raw_values algo_func n (fst (algo_func s))"

text \<open>The application as \<^verbatim>\<open>__init__\<close> leaves it, for concrete instances.\<close>

definition app_init :: app where
  "app_init =
     \<lparr>current_algorithm = ''Linear Congruential (LCG)'', is_generating = False,
      status_label = Other_text ''Ready to generate visualization'',
      seed_entry = ''12345'', grid_canvas = [], stats_items = None\<rparr>"

text \<open>An environment for concrete instances: only the text \<^verbatim>\<open>"12345"\<close> parses.\<close>

definition env_example :: env where
  "env_example =
     \<lparr>py_int = (\<lambda>t. if t = ''12345'' then Some 12345 else None),
      random_draw = 41, clock_start = 0, clock_end = 1\<rparr>"

text \<open>The exact quotient of a raw value by the range returned with it.\<close>

definition ratio_of :: "(int \<Rightarrow> int \<times> int) \<Rightarrow> int \<Rightarrow> real" where
  "ratio_of algo_func s = of_int (fst (algo_func s)) / of_int (snd (algo_func s))"

text \<open>
  The colour mapping as the specification words it: real-valued division, rounding to the
  nearest integer, clamping to [0, 255], and the blend of 10% tint with 90% grey.
\<close>

definition spec_base_gray :: "int \<Rightarrow> int \<Rightarrow> int" where
  "spec_base_gray v md = max 0 (min 255 (round (real_of_int v / real_of_int md * 200 + 20)))"

definition spec_blend :: "int \<Rightarrow> int \<Rightarrow> real" where
  "spec_blend channel base_gray =
     max 0 (min 255 (real_of_int channel * (1 / 10) + real_of_int base_gray * (9 / 10)))"

text \<open>
  What the loop needs of a step function and of a tint: a raw value between 0 and a
  positive range, and three channels that fit a byte.
\<close>

definition well_ranged :: "(int \<Rightarrow> int \<times> int) \<Rightarrow> bool" where
  "well_ranged algo_func =
     (\<forall>s. 0 \<le> fst (algo_func s) \<and> fst (algo_func s) \<le> snd (algo_func s)
          \<and> 0 < snd (algo_func s))"

definition byte_tint :: "int \<times> int \<times> int \<Rightarrow> bool" where
  "byte_tint c =
     (0 \<le> fst c \<and> fst c \<le> 255 \<and> 0 \<le> fst (snd c) \<and> fst (snd c) \<le> 255
      \<and> 0 \<le> snd (snd c) \<and> snd (snd c) \<le> 255)"

section \<open>Facts about the step functions\<close>

lemma mask32_numeral: "(4294967295 :: int) = mask 32"
  by (simp add: mask_eq_exp_minus_1)

lemma mask64_numeral: "(18446744073709551615 :: int) = mask 64"
  by (simp add: mask_eq_exp_minus_1)

lemma and_mask_range: "0 \<le> (x :: int) AND mask n \<and> x AND mask n \<le> mask n"
proof -
  have "x AND mask n = take_bit n x"
    by (simp add: take_bit_eq_mask)
  moreover have "take_bit n x < (2 :: int) ^ n"
    by (rule take_bit_int_less_exp)
  ultimately show ?thesis
    by (simp add: mask_eq_exp_minus_1)
qed

lemma lcg_range: "0 \<le> fst (lcg s) \<and> fst (lcg s) < snd (lcg s)"
  by (simp add: lcg_def)

lemma park_miller_range:
  "0 \<le> fst (park_miller s) \<and> fst (park_miller s) < snd (park_miller s)"
  by (simp add: park_miller_def)

lemma xorshift_range: "0 \<le> fst (xorshift s) \<and> fst (xorshift s) \<le> snd (xorshift s)"
  using and_mask_range [of _ 32] by (simp add: xorshift_def Let_def mask32_numeral)

lemma multiply_with_carry_range:
  "0 \<le> fst (multiply_with_carry s) \<and> fst (multiply_with_carry s) < snd (multiply_with_carry s)"
proof -
  define x where "x = s AND mask 32"
  define c where "c = drop_bit 32 s AND mask 32"
  have x: "0 \<le> x \<and> x \<le> 4294967295"
    using and_mask_range [of s 32] by (simp add: x_def mask_eq_exp_minus_1)
  have c: "0 \<le> c \<and> c \<le> 4294967295"
    using and_mask_range [of "drop_bit 32 s" 32] by (simp add: c_def mask_eq_exp_minus_1)
  have lo: "0 \<le> 4294957665 * x + c"
    using x c by simp
  have "4294957665 * x \<le> 4294957665 * 4294967295"
    using x by (intro mult_left_mono) simp_all
  then have hi: "4294957665 * x + c < 18446744073709551615"
    using c by simp
  have "(4294957665 * x + c) AND mask 64 = take_bit 64 (4294957665 * x + c)"
    by (simp add: take_bit_eq_mask)
  also have "\<dots> = 4294957665 * x + c"
    using lo hi by (simp add: take_bit_int_eq_self)
  finally have "fst (multiply_with_carry s) = 4294957665 * x + c"
    by (simp add: multiply_with_carry_def Let_def x_def c_def mask32_numeral mask64_numeral)
  then show ?thesis
    using lo hi by (simp add: multiply_with_carry_def Let_def)
qed

lemma and_mask32: "(x :: int) AND 4294967295 = take_bit 32 x"
  by (simp add: take_bit_eq_mask mask_eq_exp_minus_1)

lemma and_mask64: "(x :: int) AND 18446744073709551615 = take_bit 64 x"
  by (simp add: take_bit_eq_mask mask_eq_exp_minus_1)

text \<open>
  On a 64-bit state the multiply-with-carry step is the 64-bit machine computation: the
  product and the sum wrap around at \<open>2 ^ 64\<close>.
\<close>

lemma multiply_with_carry_word:
  fixes w :: "64 word"
  shows "fst (multiply_with_carry (uint w))
           = uint (4294957665 * (w AND 0xFFFFFFFF) + drop_bit 32 w)"
proof -
  have a: "uint (w AND 0xFFFFFFFF) = take_bit 32 (uint w)"
    by (simp add: uint_and and_mask32)
  have b: "uint (drop_bit 32 w) = drop_bit 32 (uint w)"
    by (simp add: uint_div_distrib drop_bit_eq_div)
  have "drop_bit 32 (uint w) < 2 ^ 32"
    using uint_lt2p [of w] by (simp add: drop_bit_eq_div)
  moreover have "0 \<le> drop_bit 32 (uint w)"
    by simp
  ultimately have c: "take_bit 32 (drop_bit 32 (uint w)) = drop_bit 32 (uint w)"
    by (simp add: take_bit_int_eq_self)
  have "uint (4294957665 * (w AND 0xFFFFFFFF) + drop_bit 32 w)
      = take_bit 64 (4294957665 * take_bit 32 (uint w) + drop_bit 32 (uint w))"
    by (simp add: uint_word_ariths a b mod_simps take_bit_eq_mod)
  then show ?thesis
    using c by (simp add: multiply_with_carry_def Let_def and_mask32 and_mask64)
qed

text \<open>
  On a state that fits 32 bits, masking the shifted terms is masking every intermediate
  result: the source and the specification's wording agree there.
\<close>

lemma xorshift_in_range:
  assumes "0 \<le> s" "s < 2 ^ 32"
  shows "xorshift s = spec_xorshift s"
proof -
  define s1 where "s1 = take_bit 32 (s XOR push_bit 13 s)"
  define s2 where "s2 = s1 XOR drop_bit 17 s1"
  have s: "take_bit 32 s = s"
    using assms by (simp add: take_bit_int_eq_self)
  have "s XOR take_bit 32 (push_bit 13 s) = take_bit 32 s XOR take_bit 32 (push_bit 13 s)"
    by (simp only: s)
  then have c1: "s XOR take_bit 32 (push_bit 13 s) = s1"
    by (simp only: s1_def take_bit_xor)
  have "s1 < 2 ^ 32"
    unfolding s1_def by (rule take_bit_int_less_exp)
  moreover have "0 \<le> s1"
    unfolding s1_def by (rule take_bit_nonnegative)
  ultimately have r1: "0 \<le> s1 \<and> s1 < 2 ^ 32"
    by simp
  then have "0 \<le> drop_bit 17 s1 \<and> drop_bit 17 s1 < 2 ^ 32"
    by (simp add: drop_bit_eq_div) linarith
  with r1 have r2: "0 \<le> s2 \<and> s2 < 2 ^ 32"
    using XOR_upper [of s1 32 "drop_bit 17 s1"] by (simp add: s2_def)
  then have c2: "take_bit 32 s2 = s2"
    by (simp add: take_bit_int_eq_self)
  have c3: "take_bit 32 (s2 XOR take_bit 32 (push_bit 5 s2)) = take_bit 32 (s2 XOR push_bit 5 s2)"
    by (simp add: take_bit_xor)
  have lhs: "xorshift s = (take_bit 32 (s2 XOR push_bit 5 s2), 4294967295)"
    unfolding xorshift_def Let_def and_mask32 c1 s2_def [symmetric] c3 ..
  have rhs: "spec_xorshift s = (take_bit 32 (s2 XOR push_bit 5 s2), 4294967295)"
    unfolding spec_xorshift_def Let_def and_mask32 s1_def [symmetric] s2_def [symmetric] c2 ..
  show ?thesis
    by (simp only: lhs rhs)
qed

section \<open>Facts about the float operations\<close>

text \<open>
  Rounding to nearest never crosses a number that is itself representable: a non-negative
  exact result between two integers below \<open>2 ^ 53\<close> rounds to a float between them, and
  does not overflow.
\<close>

lemma round_half_even_lower: "m div 2 ^ k \<le> round_half_even m k"
  by (simp add: round_half_even_def Let_def)

lemma round_half_even_upper: "round_half_even m k \<le> m div 2 ^ k + 1"
  by (simp add: round_half_even_def Let_def)

lemma round_half_even_exact: "m mod 2 ^ k = 0 \<Longrightarrow> round_half_even m k = m div 2 ^ k"
  by (simp add: round_half_even_def Let_def)

lemma round_half_even_le:
  assumes "m \<le> J * 2 ^ k"
  shows "round_half_even m k \<le> J"
proof (cases "m mod 2 ^ k = 0")
  case True
  have "m div 2 ^ k \<le> (J * 2 ^ k) div 2 ^ k"
    using assms by (intro zdiv_mono1) simp_all
  then show ?thesis
    using True by (simp add: round_half_even_exact)
next
  case False
  then have "m \<noteq> J * 2 ^ k"
    by auto
  with assms have "m < J * 2 ^ k"
    by simp
  moreover have "(m div 2 ^ k) * 2 ^ k \<le> m"
    by (simp add: div_mult_self_is_m minus_mod_eq_div_mult [symmetric])
  ultimately have "(m div 2 ^ k) * 2 ^ k < J * 2 ^ k"
    by linarith
  then have "m div 2 ^ k < J"
    by (simp add: mult_less_cancel_right)
  then show ?thesis
    using round_half_even_upper [of m k] by linarith
qed

lemma round_half_even_ge:
  assumes "J * 2 ^ k \<le> m"
  shows "J \<le> round_half_even m k"
proof -
  have "(J * 2 ^ k) div 2 ^ k \<le> m div 2 ^ k"
    using assms by (intro zdiv_mono1) simp_all
  then show ?thesis
    using round_half_even_lower [of m k] by simp
qed

lemma fl_overflows_iff:
  "fl_overflows m e \<longleftrightarrow> 2 ^ 1024 \<le> \<bar>real_of_int m\<bar> * power_int 2 e"
proof (cases "0 \<le> e")
  case True
  then have "power_int (2 :: real) e = 2 ^ nat e"
    by (simp add: power_int_def)
  moreover have "(2 ^ 1024 \<le> \<bar>m\<bar> * 2 ^ nat e)
      \<longleftrightarrow> ((2 :: real) ^ 1024 \<le> of_int (\<bar>m\<bar> * 2 ^ nat e))"
    by (simp only: numeral_power_le_of_int_cancel_iff)
  ultimately show ?thesis
    using True by (simp add: fl_overflows_def del: power_numeral)
next
  case False
  then have pw: "power_int (2 :: real) e = 1 / 2 ^ nat (- e)"
    by (simp add: power_int_def field_simps)
  have "(2 ^ (1024 + nat (- e)) \<le> \<bar>m\<bar>)
      \<longleftrightarrow> ((2 :: real) ^ (1024 + nat (- e)) \<le> of_int \<bar>m\<bar>)"
    by (simp only: numeral_power_le_of_int_cancel_iff)
  then show ?thesis
    using False by (simp add: fl_overflows_def pw power_add field_simps del: power_numeral)
qed


lemma power_int_neg_nat: "power_int (2 :: real) (- int n) = 1 / 2 ^ n"
  by (simp add: power_int_minus field_simps)

lemma fl_round_between:
  assumes m: "0 \<le> m"
    and lo: "real_of_int lo \<le> of_int m * power_int 2 e"
    and hi: "of_int m * power_int 2 e \<le> real_of_int hi"
    and lo0: "0 \<le> lo" and hi53: "hi < 2 ^ 53"
  shows "\<exists>x. fl_round m e = Inr x \<and> 0 \<le> fst x
    \<and> real_of_int lo \<le> valof x \<and> valof x \<le> real_of_int hi"
proof -
  define k where "k = max (bitlen \<bar>m\<bar> - 53) (- 1074 - e)"
  define m' where "m' = (if k \<le> 0 then m else round_half_even m (nat k))"
  define e' where "e' = (if k \<le> 0 then e else e + k)"
  have val: "0 \<le> m' \<and> real_of_int lo \<le> of_int m' * power_int 2 e'
      \<and> of_int m' * power_int 2 e' \<le> real_of_int hi"
  proof (cases "k \<le> 0")
    case True
    then show ?thesis
      using m lo hi by (simp add: m'_def e'_def)
  next
    case False
    then have k: "0 < k"
      by simp
    have m'_eq: "m' = round_half_even m (nat k)" and e'_eq: "e' = e + k"
      using False by (simp_all add: m'_def e'_def)
    have "0 \<le> m div 2 ^ nat k"
      using m by (simp add: pos_imp_zdiv_nonneg_iff)
    then have m'0: "0 \<le> m'"
      using round_half_even_lower [of m "nat k"] by (simp add: m'_eq)
    show ?thesis
    proof (cases "e + k \<le> 0")
      case True
      define d where "d = nat (- (e + k))"
      have e_eq: "e = - int (d + nat k)" and ek_eq: "e + k = - int d"
        using True k by (simp_all add: d_def)
      have pw_e: "power_int (2 :: real) e = 1 / 2 ^ (d + nat k)"
        unfolding e_eq by (rule power_int_neg_nat)
      have pw_ek: "power_int (2 :: real) (e + k) = 1 / 2 ^ d"
        unfolding ek_eq by (rule power_int_neg_nat)
      have "real_of_int m \<le> real_of_int hi * 2 ^ (d + nat k)"
        using hi by (simp add: pw_e field_simps)
      then have "real_of_int m \<le> real_of_int (hi * 2 ^ d * 2 ^ nat k)"
        by (simp add: power_add mult.assoc)
      then have "m \<le> hi * 2 ^ d * 2 ^ nat k"
        by (simp only: of_int_le_iff)
      then have "m' \<le> hi * 2 ^ d"
        unfolding m'_eq by (rule round_half_even_le)
      then have "real_of_int m' \<le> real_of_int (hi * 2 ^ d)"
        by (simp only: of_int_le_iff)
      then have up: "of_int m' * power_int 2 e' \<le> real_of_int hi"
        by (simp add: e'_eq pw_ek field_simps)
      have "real_of_int lo * 2 ^ (d + nat k) \<le> real_of_int m"
        using lo by (simp add: pw_e field_simps)
      then have "real_of_int (lo * 2 ^ d * 2 ^ nat k) \<le> real_of_int m"
        by (simp add: power_add mult.assoc)
      then have "lo * 2 ^ d * 2 ^ nat k \<le> m"
        by (simp only: of_int_le_iff)
      then have "lo * 2 ^ d \<le> m'"
        unfolding m'_eq by (rule round_half_even_ge)
      then have "real_of_int (lo * 2 ^ d) \<le> real_of_int m'"
        by (simp only: of_int_le_iff)
      then have "real_of_int lo \<le> of_int m' * power_int 2 e'"
        by (simp add: e'_eq pw_ek field_simps)
      with up m'0 show ?thesis
        by simp
    next
      case False
      then have ek: "1 \<le> e + k"
        by simp
      then have k_eq: "k = bitlen \<bar>m\<bar> - 53"
        by (simp add: k_def max_def split: if_splits)
      with k have "0 < \<bar>m\<bar>"
        by (cases "m = 0") simp_all
      then have "2 ^ nat (bitlen \<bar>m\<bar> - 1) \<le> \<bar>m\<bar>"
        using bitlen_bounds [of "\<bar>m\<bar>"] by simp
      moreover have "nat (bitlen \<bar>m\<bar> - 1) = nat k + 52"
        using k k_eq by simp
      ultimately have "2 ^ (nat k + 52) \<le> m"
        using m by simp
      then have "(2 :: real) ^ (nat k + 52) \<le> of_int m"
        by (simp only: numeral_power_le_of_int_cancel_iff)
      then have "(2 :: real) ^ (nat k + 52) * power_int 2 e \<le> of_int m * power_int 2 e"
        by (intro mult_right_mono) simp_all
      moreover have "(2 :: real) ^ (nat k + 52) * power_int 2 e = power_int 2 (e + k + 52)"
      proof -
        have "(2 :: real) ^ (nat k + 52) = power_int 2 (k + 52)"
          using k by (simp add: power_int_def nat_add_distrib)
        then show ?thesis
          by (simp add: power_int_add algebra_simps)
      qed
      moreover have "power_int (2 :: real) 53 \<le> power_int 2 (e + k + 52)"
        using ek by (intro power_int_increasing) simp_all
      moreover have "real_of_int hi < power_int 2 53"
      proof -
        have "real_of_int hi < real_of_int (2 ^ 53)"
          using hi53 by (simp only: of_int_less_iff)
        then show ?thesis
          by simp
      qed
      ultimately have False
        using hi by linarith
      then show ?thesis ..
    qed
  qed
  have "\<bar>real_of_int m'\<bar> * power_int 2 e' < 2 ^ 53"
  proof -
    have "real_of_int hi < real_of_int (2 ^ 53)"
      using hi53 by (simp only: of_int_less_iff)
    then show ?thesis
      using val by simp
  qed
  then have "\<not> fl_overflows m' e'"
    by (simp add: fl_overflows_iff)
  moreover have "fl_round m e = (if fl_overflows m' e' then Inl OverflowError else Inr (m', e'))"
    by (simp only: fl_round_def Let_def m'_def e'_def k_def)
  ultimately have "fl_round m e = Inr (m', e')"
    by simp
  with val show ?thesis
    by (simp add: valof_def)
qed


lemma fl_of_int_exact:
  assumes "0 \<le> n" "n < 2 ^ 53"
  shows "\<exists>x. fl_of_int n = Inr x \<and> 0 \<le> fst x \<and> valof x = of_int n"
proof -
  have "real_of_int n \<le> of_int n * power_int 2 0" "of_int n * power_int 2 0 \<le> real_of_int n"
    by simp_all
  from fl_round_between [OF assms(1) this assms]
  obtain x where "fl_round n 0 = Inr x" "0 \<le> fst x"
    "real_of_int n \<le> valof x" "valof x \<le> real_of_int n"
    by blast
  then show ?thesis
    by (auto simp add: fl_of_int_def)
qed

lemma fl_mul_between:
  assumes "0 \<le> fst x" "0 \<le> fst y"
    and "real_of_int lo \<le> valof x * valof y" "valof x * valof y \<le> real_of_int hi"
    and "0 \<le> lo" "hi < 2 ^ 53"
  shows "\<exists>z. fl_mul x y = Inr z \<and> 0 \<le> fst z
    \<and> real_of_int lo \<le> valof z \<and> valof z \<le> real_of_int hi"
proof -
  have eq: "of_int (fst x * fst y) * power_int 2 (snd x + snd y) = valof x * valof y"
    by (simp add: valof_def power_int_add)
  have "0 \<le> fst x * fst y"
    using assms(1,2) by simp
  from fl_round_between [OF this assms(3,4) [folded eq] assms(5,6)]
  obtain z where "fl_round (fst x * fst y) (snd x + snd y) = Inr z" "0 \<le> fst z"
    "real_of_int lo \<le> valof z" "valof z \<le> real_of_int hi"
    by blast
  then show ?thesis
    by (simp add: fl_mul_def)
qed

lemma power_nat_power_int:
  assumes "0 \<le> d"
  shows "real_of_int (2 ^ nat d) * power_int 2 e = power_int 2 (d + e)"
proof -
  have "real_of_int (2 ^ nat d) = power_int 2 d"
    using assms by (simp add: power_int_def)
  then show ?thesis
    by (simp add: power_int_add)
qed

lemma fl_add_between:
  assumes "0 \<le> fst x" "0 \<le> fst y"
    and "real_of_int lo \<le> valof x + valof y" "valof x + valof y \<le> real_of_int hi"
    and "0 \<le> lo" "hi < 2 ^ 53"
  shows "\<exists>z. fl_add x y = Inr z \<and> 0 \<le> fst z
    \<and> real_of_int lo \<le> valof z \<and> valof z \<le> real_of_int hi"
proof -
  define e where "e = min (snd x) (snd y)"
  define m where "m = fst x * 2 ^ nat (snd x - e) + fst y * 2 ^ nat (snd y - e)"
  have "of_int m * power_int 2 e
      = of_int (fst x) * (real_of_int (2 ^ nat (snd x - e)) * power_int 2 e)
        + of_int (fst y) * (real_of_int (2 ^ nat (snd y - e)) * power_int 2 e)"
    by (simp add: m_def algebra_simps)
  also have "\<dots> = valof x + valof y"
    by (simp only: power_nat_power_int e_def valof_def) (simp add: e_def)
  finally have eq: "of_int m * power_int 2 e = valof x + valof y" .
  have "0 \<le> m"
    using assms(1,2) by (simp add: m_def)
  from fl_round_between [OF this assms(3,4) [folded eq] assms(5,6)]
  obtain z where "fl_round m e = Inr z" "0 \<le> fst z"
    "real_of_int lo \<le> valof z" "valof z \<le> real_of_int hi"
    by blast
  then show ?thesis
    by (simp add: fl_add_def Let_def m_def e_def)
qed

lemma fl_trunc_floor:
  assumes "0 \<le> fst x"
  shows "fl_trunc x = \<lfloor>valof x\<rfloor>"
proof (cases "0 \<le> snd x")
  case True
  then have "valof x = of_int (fst x * 2 ^ nat (snd x))"
    by (simp add: valof_def power_int_def)
  then show ?thesis
    using True by (simp only: fl_trunc_def floor_of_int if_True)
next
  case False
  then have "valof x = real_of_int (fst x) / real_of_int (2 ^ nat (- snd x))"
    by (simp add: valof_def power_int_def field_simps)
  then have "\<lfloor>valof x\<rfloor> = fst x div 2 ^ nat (- snd x)"
    by (simp only: floor_divide_of_int_eq)
  moreover have "sgn (fst x) * (\<bar>fst x\<bar> div 2 ^ nat (- snd x)) = fst x div 2 ^ nat (- snd x)"
    using assms by (cases "fst x = 0") (simp_all add: sgn_if)
  ultimately show ?thesis
    using False by (simp add: fl_trunc_def)
qed

lemma int_true_div_unit:
  assumes "0 \<le> a" "a \<le> b" "0 < b"
  shows "\<exists>x. int_true_div a b = Inr x \<and> 0 \<le> fst x \<and> 0 \<le> valof x \<and> valof x \<le> 1"
proof -
  define sh where "sh = nat (bitlen b) + 55"
  define q where "q = (a * 2 ^ sh) div b"
  define sticky :: int where "sticky = (if (a * 2 ^ sh) mod b = 0 then 0 else 1)"
  have q0: "0 \<le> q"
    using assms by (simp add: q_def pos_imp_zdiv_nonneg_iff)
  have "2 * q + sticky \<le> 2 * 2 ^ sh"
  proof (cases "a = b")
    case True
    then show ?thesis
      using assms by (simp add: q_def sticky_def)
  next
    case False
    with assms have "a * 2 ^ sh < 2 ^ sh * b"
      by simp
    moreover have "q * b \<le> a * 2 ^ sh"
      unfolding q_def using assms(3)
      by (simp add: minus_mod_eq_div_mult [symmetric])
    ultimately have "q * b < 2 ^ sh * b"
      by linarith
    then have "q < 2 ^ sh"
      using assms(3) by (simp add: mult_less_cancel_right)
    then show ?thesis
      by (simp add: sticky_def)
  qed
  then have "real_of_int (2 * q + sticky) \<le> real_of_int (2 * 2 ^ sh)"
    by (simp only: of_int_le_iff)
  then have le: "real_of_int (2 * q + sticky) \<le> 2 ^ Suc sh"
    by simp
  have up: "real_of_int (2 * q + sticky) * power_int 2 (- int sh - 1) \<le> real_of_int 1"
  proof -
    have "- int sh - 1 = - int (Suc sh)"
      by simp
    then have pw: "power_int (2 :: real) (- int sh - 1) = 1 / 2 ^ Suc sh"
      by (simp only: power_int_neg_nat)
    have "real_of_int (2 * q + sticky) * (1 / 2 ^ Suc sh) \<le> 1"
      using le by (simp add: field_simps)
    then show ?thesis
      by (simp only: pw of_int_1)
  qed
  have m0: "0 \<le> 2 * q + sticky"
    using q0 by (simp add: sticky_def)
  then have low: "real_of_int 0 \<le> real_of_int (2 * q + sticky) * power_int 2 (- int sh - 1)"
    by simp
  from fl_round_between [OF m0 low up]
  obtain x where "fl_round (2 * q + sticky) (- int sh - 1) = Inr x" "0 \<le> fst x"
    "real_of_int 0 \<le> valof x" "valof x \<le> real_of_int 1"
    by auto
  moreover have "int_true_div a b = fl_round (2 * q + sticky) (- int sh - 1)"
    using assms by (simp add: int_true_div_def Let_def q_def sticky_def sh_def)
  ultimately show ?thesis
    by simp
qed

lemma gray_level_range:
  assumes "0 \<le> fst ratio" "0 \<le> valof ratio" "valof ratio \<le> 1"
  shows "\<exists>u. gray_level ratio = Inr u \<and> 0 \<le> fst u \<and> 20 \<le> valof u \<and> valof u \<le> 220"
proof -
  obtain c200 where c200: "fl_of_int 200 = Inr c200" "0 \<le> fst c200" "valof c200 = 200"
    using fl_of_int_exact [of 200] by auto
  have "real_of_int 0 \<le> valof ratio * valof c200" "valof ratio * valof c200 \<le> real_of_int 200"
    using assms c200(3) by simp_all
  from fl_mul_between [OF assms(1) c200(2) this]
  obtain t where t: "fl_mul ratio c200 = Inr t" "0 \<le> fst t" "0 \<le> valof t" "valof t \<le> 200"
    by auto
  obtain c20 where c20: "fl_of_int 20 = Inr c20" "0 \<le> fst c20" "valof c20 = 20"
    using fl_of_int_exact [of 20] by auto
  have "real_of_int 20 \<le> valof t + valof c20" "valof t + valof c20 \<le> real_of_int 220"
    using t c20(3) by simp_all
  from fl_add_between [OF t(2) c20(2) this]
  obtain u where u: "fl_add t c20 = Inr u" "0 \<le> fst u" "20 \<le> valof u" "valof u \<le> 220"
    by auto
  have "gray_level ratio = Inr u"
    by (simp add: gray_level_def bind_err_def c200 t c20 u)
  with u show ?thesis
    by simp
qed

lemma base_gray_of_range:
  assumes "0 \<le> fst ratio" "0 \<le> valof ratio" "valof ratio \<le> 1"
  shows "\<exists>u bg. gray_level ratio = Inr u \<and> base_gray_of ratio = Inr bg
    \<and> bg = \<lfloor>valof u\<rfloor> \<and> 20 \<le> bg \<and> bg \<le> 220"
proof -
  from gray_level_range [OF assms]
  obtain u where u: "gray_level ratio = Inr u" "0 \<le> fst u" "20 \<le> valof u" "valof u \<le> 220"
    by auto
  have "fl_trunc u = \<lfloor>valof u\<rfloor>"
    using u(2) by (rule fl_trunc_floor)
  moreover have "20 \<le> \<lfloor>valof u\<rfloor>" "\<lfloor>valof u\<rfloor> \<le> 220"
    using u(3,4) by (simp_all add: le_floor_iff floor_le_iff)
  moreover have "base_gray_of ratio = Inr (fl_trunc u)"
    by (simp add: base_gray_of_def bind_err_def u)
  ultimately show ?thesis
    using u(1) by simp
qed

lemma fl_0_1_range: "0 \<le> fst fl_0_1 \<and> 0 \<le> valof fl_0_1 \<and> valof fl_0_1 \<le> 1"
  by (simp add: fl_0_1_def valof_def power_int_minus)

lemma fl_0_9_range: "0 \<le> fst fl_0_9 \<and> 0 \<le> valof fl_0_9 \<and> valof fl_0_9 \<le> 1"
  by (simp add: fl_0_9_def valof_def power_int_minus)

lemma blend_range:
  assumes "0 \<le> c" "c \<le> 255" "0 \<le> bg" "bg \<le> 255"
  shows "\<exists>u r. blend_level c bg = Inr u \<and> blend c bg = Inr r \<and> r = \<lfloor>valof u\<rfloor> \<and> 0 \<le> r"
proof -
  obtain fc where fc: "fl_of_int c = Inr fc" "0 \<le> fst fc" "valof fc = of_int c"
    using fl_of_int_exact [of c] assms by auto
  have "valof fc * valof fl_0_1 \<le> 255 * 1"
    using fc(3) assms fl_0_1_range by (intro mult_mono) simp_all
  then have "real_of_int 0 \<le> valof fc * valof fl_0_1" "valof fc * valof fl_0_1 \<le> real_of_int 255"
    using fc(3) assms fl_0_1_range by simp_all
  from fl_mul_between [OF fc(2) _ this] fl_0_1_range
  obtain a where a: "fl_mul fc fl_0_1 = Inr a" "0 \<le> fst a" "0 \<le> valof a" "valof a \<le> 255"
    by auto
  obtain fb where fb: "fl_of_int bg = Inr fb" "0 \<le> fst fb" "valof fb = of_int bg"
    using fl_of_int_exact [of bg] assms by auto
  have "valof fb * valof fl_0_9 \<le> 255 * 1"
    using fb(3) assms fl_0_9_range by (intro mult_mono) simp_all
  then have "real_of_int 0 \<le> valof fb * valof fl_0_9" "valof fb * valof fl_0_9 \<le> real_of_int 255"
    using fb(3) assms fl_0_9_range by simp_all
  from fl_mul_between [OF fb(2) _ this] fl_0_9_range
  obtain b where b: "fl_mul fb fl_0_9 = Inr b" "0 \<le> fst b" "0 \<le> valof b" "valof b \<le> 255"
    by auto
  have "real_of_int 0 \<le> valof a + valof b" "valof a + valof b \<le> real_of_int 510"
    using a b by simp_all
  from fl_add_between [OF a(2) b(2) this]
  obtain u where u: "fl_add a b = Inr u" "0 \<le> fst u" "0 \<le> valof u"
    by auto
  have lv: "blend_level c bg = Inr u"
    by (simp add: blend_level_def bind_err_def fc a fb b u)
  have "fl_trunc u = \<lfloor>valof u\<rfloor>"
    using u(2) by (rule fl_trunc_floor)
  moreover have "0 \<le> \<lfloor>valof u\<rfloor>"
    using u(3) by simp
  moreover have "blend c bg = Inr (fl_trunc u)"
    by (simp add: blend_def bind_err_def lv)
  ultimately show ?thesis
    using lv by simp
qed

text \<open>
  Each operation is within half a unit in the last place of the exact result, so the floats
  of the colour mapping stay within \<open>2 ^ -42\<close> of the real numbers they stand for.
\<close>

lemma round_half_even_error: "2 * \<bar>round_half_even m k * 2 ^ k - m\<bar> \<le> 2 ^ k"
proof -
  define q where "q = m div 2 ^ k"
  define r where "r = m mod 2 ^ k"
  have m: "m = q * 2 ^ k + r"
    unfolding q_def r_def by (rule div_mult_mod_eq [symmetric])
  have r: "0 \<le> r" "r < 2 ^ k"
    by (simp_all add: r_def)
  have "round_half_even m k = q \<and> 2 * r \<le> 2 ^ k \<or> round_half_even m k = q + 1 \<and> 2 ^ k \<le> 2 * r"
    by (auto simp add: round_half_even_def Let_def q_def r_def)
  then show ?thesis
    using r by (auto simp add: m algebra_simps)
qed

lemma fl_round_error:
  assumes "fl_round m e = Inr x"
  shows "\<bar>valof x - of_int m * power_int 2 e\<bar>
           \<le> \<bar>of_int m * power_int 2 e\<bar> / 2 ^ 53 + 1 / 2 ^ 1075"
proof -
  define k where "k = max (bitlen \<bar>m\<bar> - 53) (- 1074 - e)"
  show ?thesis
  proof (cases "k \<le> 0")
    case True
    then have "x = (m, e)"
      using assms by (simp add: fl_round_def Let_def k_def split: if_splits)
    then show ?thesis
      by (simp add: valof_def)
  next
    case False
    then have k: "0 < k"
      by simp
    define m' where "m' = round_half_even m (nat k)"
    have x: "x = (m', e + k)"
      using assms False by (simp add: fl_round_def Let_def k_def m'_def split: if_splits)
    have pw: "power_int (2 :: real) (e + k) = 2 ^ nat k * power_int 2 e"
      using k power_nat_power_int [of k e] by (simp add: add.commute)
    have "valof x - of_int m * power_int 2 e
        = real_of_int (m' * 2 ^ nat k - m) * power_int 2 e"
      by (simp add: x valof_def pw algebra_simps)
    then have "\<bar>valof x - of_int m * power_int 2 e\<bar>
        = real_of_int \<bar>m' * 2 ^ nat k - m\<bar> * power_int 2 e"
      by (simp add: abs_mult)
    moreover have "real_of_int (2 * \<bar>m' * 2 ^ nat k - m\<bar>) \<le> real_of_int (2 ^ nat k)"
      unfolding m'_def by (simp only: of_int_le_iff round_half_even_error)
    then have "real_of_int \<bar>m' * 2 ^ nat k - m\<bar> * power_int 2 e \<le> 2 ^ nat k / 2 * power_int 2 e"
      by (intro mult_right_mono) simp_all
    ultimately have err: "\<bar>valof x - of_int m * power_int 2 e\<bar> \<le> power_int 2 (e + k) / 2"
      by (simp add: pw)
    show ?thesis
    proof (cases "k = - 1074 - e")
      case True
      then have "power_int (2 :: real) (e + k) = 1 / 2 ^ 1074"
        using power_int_neg_nat [of 1074] by simp
      with err have "\<bar>valof x - of_int m * power_int 2 e\<bar> \<le> 1 / 2 ^ 1075"
        by simp
      moreover have "0 \<le> \<bar>real_of_int m * power_int 2 e\<bar> / 2 ^ 53"
        by simp
      ultimately show ?thesis
        by linarith
    next
      case False
      then have k_eq: "k = bitlen \<bar>m\<bar> - 53"
        by (simp add: k_def max_def split: if_splits)
      with k have "0 < \<bar>m\<bar>"
        by (cases "m = 0") simp_all
      then have "2 ^ nat (bitlen \<bar>m\<bar> - 1) \<le> \<bar>m\<bar>"
        using bitlen_bounds [of "\<bar>m\<bar>"] by simp
      moreover have "nat (bitlen \<bar>m\<bar> - 1) = nat k + 52"
        using k k_eq by simp
      ultimately have "2 ^ (nat k + 52) \<le> \<bar>m\<bar>"
        by simp
      then have "(2 :: real) ^ (nat k + 52) \<le> of_int \<bar>m\<bar>"
        by (simp only: numeral_power_le_of_int_cancel_iff)
      then have "(2 :: real) ^ (nat k + 52) * power_int 2 e \<le> of_int \<bar>m\<bar> * power_int 2 e"
        by (intro mult_right_mono) simp_all
      then have "2 ^ nat k * power_int 2 e * 2 ^ 52 \<le> \<bar>real_of_int m * power_int 2 e\<bar>"
        by (simp add: power_add abs_mult mult.commute mult.left_commute)
      then have "power_int 2 (e + k) / 2 \<le> \<bar>real_of_int m * power_int 2 e\<bar> / 2 ^ 53"
        by (simp add: pw field_simps)
      with err show ?thesis
        by simp
    qed
  qed
qed


lemma fl_mul_error:
  assumes "fl_mul x y = Inr z"
  shows "\<bar>valof z - valof x * valof y\<bar> \<le> \<bar>valof x * valof y\<bar> / 2 ^ 53 + 1 / 2 ^ 1075"
proof -
  have "of_int (fst x * fst y) * power_int 2 (snd x + snd y) = valof x * valof y"
    by (simp add: valof_def power_int_add)
  with fl_round_error [of "fst x * fst y" "snd x + snd y" z] assms show ?thesis
    by (simp add: fl_mul_def)
qed

lemma fl_add_error:
  assumes "fl_add x y = Inr z"
  shows "\<bar>valof z - (valof x + valof y)\<bar> \<le> \<bar>valof x + valof y\<bar> / 2 ^ 53 + 1 / 2 ^ 1075"
proof -
  define e where "e = min (snd x) (snd y)"
  define m where "m = fst x * 2 ^ nat (snd x - e) + fst y * 2 ^ nat (snd y - e)"
  have "of_int m * power_int 2 e
      = of_int (fst x) * (real_of_int (2 ^ nat (snd x - e)) * power_int 2 e)
        + of_int (fst y) * (real_of_int (2 ^ nat (snd y - e)) * power_int 2 e)"
    by (simp add: m_def algebra_simps)
  also have "\<dots> = valof x + valof y"
    by (simp only: power_nat_power_int e_def valof_def) (simp add: e_def)
  finally have eq: "of_int m * power_int 2 e = valof x + valof y" .
  have "fl_round m e = Inr z"
    using assms by (simp add: fl_add_def Let_def m_def e_def)
  from fl_round_error [OF this] show ?thesis
    by (simp only: eq)
qed

lemma int_true_div_error:
  assumes "0 \<le> a" "a \<le> b" "0 < b" "int_true_div a b = Inr x"
  shows "\<bar>valof x - real_of_int a / real_of_int b\<bar> \<le> 1 / 2 ^ 52"
proof -
  define sh where "sh = nat (bitlen b) + 55"
  define q where "q = (a * 2 ^ sh) div b"
  define rm where "rm = (a * 2 ^ sh) mod b"
  define sticky :: int where "sticky = (if rm = 0 then 0 else 1)"
  define v where "v = real_of_int (2 * q + sticky) * power_int 2 (- int sh - 1)"
  have rnd: "fl_round (2 * q + sticky) (- int sh - 1) = Inr x"
    using assms by (simp add: int_true_div_def Let_def q_def sticky_def rm_def sh_def)
  have "- int sh - 1 = - int (Suc sh)"
    by simp
  then have pw: "power_int (2 :: real) (- int sh - 1) = 1 / 2 ^ Suc sh"
    by (simp only: power_int_neg_nat)
  have split: "a * 2 ^ sh = q * b + rm"
    unfolding q_def rm_def by (rule div_mult_mod_eq [symmetric])
  have rm: "0 \<le> rm" "rm < b"
    using assms(3) by (simp_all add: rm_def)
  have b0: "0 < real_of_int b"
    using assms(3) by simp
  have "real_of_int (a * 2 ^ sh) = real_of_int (q * b + rm)"
    by (simp only: split)
  define D where "D = real_of_int a / real_of_int b * 2 ^ Suc sh"
  define fr where "fr = real_of_int rm / real_of_int b"
  from \<open>real_of_int (a * 2 ^ sh) = real_of_int (q * b + rm)\<close>
  have quot: "D = 2 * real_of_int q + 2 * fr"
    using b0 by (simp add: D_def fr_def field_simps)
  have frac: "0 \<le> fr" "fr < 1" "rm = 0 \<longleftrightarrow> fr = 0"
    using rm b0 by (simp_all add: fr_def)
  have "\<bar>real_of_int (2 * q + sticky) - D\<bar> \<le> 1"
    using frac by (cases "rm = 0") (simp_all add: quot sticky_def abs_le_iff)
  then have "\<bar>real_of_int (2 * q + sticky) - D\<bar> / 2 ^ Suc sh \<le> 1 / 2 ^ Suc sh"
    by (intro divide_right_mono) simp_all
  moreover have "\<bar>real_of_int (2 * q + sticky) - D\<bar> / 2 ^ Suc sh
      = \<bar>v - real_of_int a / real_of_int b\<bar>"
  proof -
    have "v - real_of_int a / real_of_int b = (real_of_int (2 * q + sticky) - D) / 2 ^ Suc sh"
      by (simp add: v_def pw D_def field_simps)
    then show ?thesis
      by (simp only: abs_divide) simp
  qed
  moreover have "(1 :: real) / 2 ^ Suc sh \<le> 1 / 2 ^ 56"
  proof -
    have "(2 :: real) ^ 56 \<le> 2 ^ Suc sh"
      by (intro power_increasing) (simp_all add: sh_def)
    then show ?thesis
      by (intro divide_left_mono) simp_all
  qed
  ultimately have e1: "\<bar>v - real_of_int a / real_of_int b\<bar> \<le> 1 / 2 ^ 56"
    by linarith
  have tq: "0 \<le> real_of_int a / real_of_int b" "real_of_int a / real_of_int b \<le> 1"
    using assms by simp_all
  with e1 have "\<bar>v\<bar> \<le> 1 + 1 / 2 ^ 56"
    by linarith
  then have "\<bar>v\<bar> / 2 ^ 53 \<le> (1 + 1 / 2 ^ 56) / 2 ^ 53"
    by (intro divide_right_mono) simp_all
  moreover from fl_round_error [OF rnd]
  have "\<bar>valof x - v\<bar> \<le> \<bar>v\<bar> / 2 ^ 53 + 1 / 2 ^ 1075"
    by (simp only: v_def)
  ultimately have "\<bar>valof x - v\<bar> \<le> (1 + 1 / 2 ^ 56) / 2 ^ 53 + 1 / 2 ^ 1075"
    by linarith
  with e1 have "\<bar>valof x - real_of_int a / real_of_int b\<bar>
      \<le> (1 + 1 / 2 ^ 56) / 2 ^ 53 + 1 / 2 ^ 1075 + 1 / 2 ^ 56"
    by linarith
  moreover have "(1 + 1 / 2 ^ 56) / 2 ^ 53 + 1 / 2 ^ 1075 + 1 / 2 ^ 56 \<le> (1 :: real) / 2 ^ 52"
    by simp
  ultimately show ?thesis
    by linarith
qed


lemma gray_level_error:
  assumes "0 \<le> fst ratio" "0 \<le> valof ratio" "valof ratio \<le> 1"
    and "\<bar>valof ratio - T\<bar> \<le> 1 / 2 ^ 52"
    and "gray_level ratio = Inr u"
  shows "\<bar>valof u - (T * 200 + 20)\<bar> \<le> 1 / 2 ^ 42"
proof -
  obtain c200 where c200: "fl_of_int 200 = Inr c200" "0 \<le> fst c200" "valof c200 = 200"
    using fl_of_int_exact [of 200] by auto
  have "real_of_int 0 \<le> valof ratio * valof c200" "valof ratio * valof c200 \<le> real_of_int 200"
    using assms c200(3) by simp_all
  from fl_mul_between [OF assms(1) c200(2) this]
  obtain t where t: "fl_mul ratio c200 = Inr t" "0 \<le> fst t" "0 \<le> valof t" "valof t \<le> 200"
    by auto
  obtain c20 where c20: "fl_of_int 20 = Inr c20" "0 \<le> fst c20" "valof c20 = 20"
    using fl_of_int_exact [of 20] by auto
  have u: "fl_add t c20 = Inr u"
    using assms(5) by (simp add: gray_level_def bind_err_def c200 t c20)
  have "\<bar>valof ratio * 200\<bar> / 2 ^ 53 \<le> 200 / 2 ^ 53"
    using assms(2,3) by (intro divide_right_mono) simp_all
  moreover from fl_mul_error [OF t(1)]
  have "\<bar>valof t - valof ratio * 200\<bar> \<le> \<bar>valof ratio * 200\<bar> / 2 ^ 53 + 1 / 2 ^ 1075"
    by (simp only: c200(3))
  ultimately have et: "\<bar>valof t - valof ratio * 200\<bar> \<le> 200 / 2 ^ 53 + 1 / 2 ^ 1075"
    by linarith
  have "\<bar>valof t + 20\<bar> / 2 ^ 53 \<le> 220 / 2 ^ 53"
    using t(3,4) by (intro divide_right_mono) simp_all
  moreover from fl_add_error [OF u]
  have "\<bar>valof u - (valof t + 20)\<bar> \<le> \<bar>valof t + 20\<bar> / 2 ^ 53 + 1 / 2 ^ 1075"
    by (simp only: c20(3))
  ultimately have eu: "\<bar>valof u - (valof t + 20)\<bar> \<le> 220 / 2 ^ 53 + 1 / 2 ^ 1075"
    by linarith
  have "\<bar>valof u - (T * 200 + 20)\<bar>
      \<le> 220 / 2 ^ 53 + 1 / 2 ^ 1075 + (200 / 2 ^ 53 + 1 / 2 ^ 1075) + 200 * (1 / 2 ^ 52)"
    using et eu assms(4) by linarith
  moreover have "220 / 2 ^ 53 + 1 / 2 ^ 1075 + (200 / 2 ^ 53 + 1 / 2 ^ 1075) + 200 * (1 / 2 ^ 52)
      \<le> (1 :: real) / 2 ^ 42"
    by simp
  ultimately show ?thesis
    by linarith
qed

lemma float_literal_error:
  "\<bar>valof fl_0_1 - 1 / 10\<bar> \<le> 1 / 2 ^ 57" "\<bar>valof fl_0_9 - 9 / 10\<bar> \<le> 1 / 2 ^ 55"
  by (simp_all add: valof_def fl_0_1_def fl_0_9_def power_int_minus)

lemma scaled_literal_error:
  assumes "0 \<le> n" "n \<le> 255" "\<bar>x - y\<bar> \<le> d"
  shows "\<bar>real_of_int n * x - real_of_int n * y\<bar> \<le> 255 * d"
proof -
  have "\<bar>real_of_int n * x - real_of_int n * y\<bar> = real_of_int n * \<bar>x - y\<bar>"
    using assms(1) by (simp add: abs_mult flip: right_diff_distrib)
  also have "\<dots> \<le> 255 * d"
    using assms by (intro mult_mono) simp_all
  finally show ?thesis .
qed

lemma blend_level_error:
  assumes "0 \<le> c" "c \<le> 255" "0 \<le> bg" "bg \<le> 255"
    and "blend_level c bg = Inr w"
  shows "\<bar>valof w - (real_of_int c * (1 / 10) + real_of_int bg * (9 / 10))\<bar> \<le> 1 / 2 ^ 42"
proof -
  obtain fc where fc: "fl_of_int c = Inr fc" "0 \<le> fst fc" "valof fc = of_int c"
    using fl_of_int_exact [of c] assms by auto
  have pa: "0 \<le> valof fc * valof fl_0_1" "valof fc * valof fl_0_1 \<le> 255"
  proof -
    have "valof fc * valof fl_0_1 \<le> 255 * 1"
      using fc(3) assms fl_0_1_range by (intro mult_mono) simp_all
    then show "0 \<le> valof fc * valof fl_0_1" "valof fc * valof fl_0_1 \<le> 255"
      using fc(3) assms fl_0_1_range by simp_all
  qed
  then have "real_of_int 0 \<le> valof fc * valof fl_0_1" "valof fc * valof fl_0_1 \<le> real_of_int 255"
    by simp_all
  from fl_mul_between [OF fc(2) _ this] fl_0_1_range
  obtain a where a: "fl_mul fc fl_0_1 = Inr a" "0 \<le> fst a" "0 \<le> valof a" "valof a \<le> 255"
    by auto
  obtain fb where fb: "fl_of_int bg = Inr fb" "0 \<le> fst fb" "valof fb = of_int bg"
    using fl_of_int_exact [of bg] assms by auto
  have pb: "0 \<le> valof fb * valof fl_0_9" "valof fb * valof fl_0_9 \<le> 255"
  proof -
    have "valof fb * valof fl_0_9 \<le> 255 * 1"
      using fb(3) assms fl_0_9_range by (intro mult_mono) simp_all
    then show "0 \<le> valof fb * valof fl_0_9" "valof fb * valof fl_0_9 \<le> 255"
      using fb(3) assms fl_0_9_range by simp_all
  qed
  then have "real_of_int 0 \<le> valof fb * valof fl_0_9" "valof fb * valof fl_0_9 \<le> real_of_int 255"
    by simp_all
  from fl_mul_between [OF fb(2) _ this] fl_0_9_range
  obtain b where b: "fl_mul fb fl_0_9 = Inr b" "0 \<le> fst b" "0 \<le> valof b" "valof b \<le> 255"
    by auto
  have w: "fl_add a b = Inr w"
    using assms(5) by (simp add: blend_level_def bind_err_def fc a fb b)
  have "\<bar>valof fc * valof fl_0_1\<bar> / 2 ^ 53 \<le> 255 / 2 ^ 53"
    using pa by (intro divide_right_mono) simp_all
  with fl_mul_error [OF a(1)]
  have "\<bar>valof a - valof fc * valof fl_0_1\<bar> \<le> 255 / 2 ^ 53 + 1 / 2 ^ 1075"
    by linarith
  then have ea: "\<bar>valof a - real_of_int c * valof fl_0_1\<bar> \<le> 255 / 2 ^ 53 + 1 / 2 ^ 1075"
    by (simp only: fc(3))
  have "\<bar>valof fb * valof fl_0_9\<bar> / 2 ^ 53 \<le> 255 / 2 ^ 53"
    using pb by (intro divide_right_mono) simp_all
  with fl_mul_error [OF b(1)]
  have "\<bar>valof b - valof fb * valof fl_0_9\<bar> \<le> 255 / 2 ^ 53 + 1 / 2 ^ 1075"
    by linarith
  then have eb: "\<bar>valof b - real_of_int bg * valof fl_0_9\<bar> \<le> 255 / 2 ^ 53 + 1 / 2 ^ 1075"
    by (simp only: fb(3))
  have "\<bar>valof a + valof b\<bar> / 2 ^ 53 \<le> 510 / 2 ^ 53"
    using a(3,4) b(3,4) by (intro divide_right_mono) simp_all
  with fl_add_error [OF w]
  have ew: "\<bar>valof w - (valof a + valof b)\<bar> \<le> 510 / 2 ^ 53 + 1 / 2 ^ 1075"
    by linarith
  have la: "\<bar>real_of_int c * valof fl_0_1 - real_of_int c * (1 / 10)\<bar> \<le> 255 * (1 / 2 ^ 57)"
    using assms(1,2) float_literal_error(1) by (rule scaled_literal_error)
  have lb: "\<bar>real_of_int bg * valof fl_0_9 - real_of_int bg * (9 / 10)\<bar> \<le> 255 * (1 / 2 ^ 55)"
    using assms(3,4) float_literal_error(2) by (rule scaled_literal_error)
  have "\<bar>valof w - (real_of_int c * (1 / 10) + real_of_int bg * (9 / 10))\<bar>
      \<le> 510 / 2 ^ 53 + 1 / 2 ^ 1075 + (255 / 2 ^ 53 + 1 / 2 ^ 1075)
        + (255 / 2 ^ 53 + 1 / 2 ^ 1075) + 255 * (1 / 2 ^ 57) + 255 * (1 / 2 ^ 55)"
    using ea eb ew la lb by linarith
  moreover have "510 / 2 ^ 53 + 1 / 2 ^ 1075 + (255 / 2 ^ 53 + 1 / 2 ^ 1075)
        + (255 / 2 ^ 53 + 1 / 2 ^ 1075) + 255 * (1 / 2 ^ 57) + 255 * (1 / 2 ^ 55)
      \<le> (1 :: real) / 2 ^ 42"
    by simp
  ultimately show ?thesis
    by linarith
qed

lemma value_to_color_ok:
  assumes "0 \<le> v" "v \<le> md" "0 < md" "byte_tint c"
  shows "\<exists>ratio u bg wr wg wb.
     int_true_div v md = Inr ratio \<and> 0 \<le> valof ratio \<and> valof ratio \<le> 1
     \<and> \<bar>valof ratio - real_of_int v / real_of_int md\<bar> \<le> 1 / 2 ^ 52
     \<and> gray_level ratio = Inr u
     \<and> \<bar>valof u - (real_of_int v / real_of_int md * 200 + 20)\<bar> \<le> 1 / 2 ^ 42
     \<and> bg = \<lfloor>valof u\<rfloor> \<and> 20 \<le> bg \<and> bg \<le> 220 \<and> max 0 (min 255 bg) = bg
     \<and> blend_level (fst c) bg = Inr wr \<and> blend_level (fst (snd c)) bg = Inr wg
     \<and> blend_level (snd (snd c)) bg = Inr wb
     \<and> \<bar>valof wr - (real_of_int (fst c) * (1 / 10) + real_of_int bg * (9 / 10))\<bar> \<le> 1 / 2 ^ 42
     \<and> \<bar>valof wg - (real_of_int (fst (snd c)) * (1 / 10) + real_of_int bg * (9 / 10))\<bar>
          \<le> 1 / 2 ^ 42
     \<and> \<bar>valof wb - (real_of_int (snd (snd c)) * (1 / 10) + real_of_int bg * (9 / 10))\<bar>
          \<le> 1 / 2 ^ 42
     \<and> value_to_color v md c
         = Inr (min \<lfloor>valof wr\<rfloor> 255, min \<lfloor>valof wg\<rfloor> 255, min \<lfloor>valof wb\<rfloor> 255)
     \<and> 0 \<le> min \<lfloor>valof wr\<rfloor> 255 \<and> min \<lfloor>valof wr\<rfloor> 255 \<le> 255
     \<and> 0 \<le> min \<lfloor>valof wg\<rfloor> 255 \<and> min \<lfloor>valof wg\<rfloor> 255 \<le> 255
     \<and> 0 \<le> min \<lfloor>valof wb\<rfloor> 255 \<and> min \<lfloor>valof wb\<rfloor> 255 \<le> 255"
proof -
  from int_true_div_unit [OF assms(1-3)]
  obtain ratio where ratio: "int_true_div v md = Inr ratio" "0 \<le> fst ratio"
    "0 \<le> valof ratio" "valof ratio \<le> 1"
    by auto
  have er: "\<bar>valof ratio - real_of_int v / real_of_int md\<bar> \<le> 1 / 2 ^ 52"
    using assms(1-3) ratio(1) by (rule int_true_div_error)
  from base_gray_of_range [OF ratio(2-4)]
  obtain u bg where bg: "gray_level ratio = Inr u" "base_gray_of ratio = Inr bg"
    "bg = \<lfloor>valof u\<rfloor>" "20 \<le> bg" "bg \<le> 220"
    by auto
  have eu: "\<bar>valof u - (real_of_int v / real_of_int md * 200 + 20)\<bar> \<le> 1 / 2 ^ 42"
    using ratio(2-4) er bg(1) by (rule gray_level_error)
  have bg': "0 \<le> bg" "bg \<le> 255"
    using bg by simp_all
  have clamp: "max 0 (min 255 bg) = bg"
    using bg' by simp
  from assms(4) have c: "0 \<le> fst c" "fst c \<le> 255" "0 \<le> fst (snd c)" "fst (snd c) \<le> 255"
    "0 \<le> snd (snd c)" "snd (snd c) \<le> 255"
    by (simp_all add: byte_tint_def)
  from blend_range [OF c(1,2) bg'] obtain wr where r: "blend_level (fst c) bg = Inr wr"
    "blend (fst c) bg = Inr \<lfloor>valof wr\<rfloor>" "0 \<le> \<lfloor>valof wr\<rfloor>"
    by auto
  from blend_range [OF c(3,4) bg'] obtain wg where g: "blend_level (fst (snd c)) bg = Inr wg"
    "blend (fst (snd c)) bg = Inr \<lfloor>valof wg\<rfloor>" "0 \<le> \<lfloor>valof wg\<rfloor>"
    by auto
  from blend_range [OF c(5,6) bg'] obtain wb where b: "blend_level (snd (snd c)) bg = Inr wb"
    "blend (snd (snd c)) bg = Inr \<lfloor>valof wb\<rfloor>" "0 \<le> \<lfloor>valof wb\<rfloor>"
    by auto
  note ew = blend_level_error [OF c(1,2) bg' r(1)] blend_level_error [OF c(3,4) bg' g(1)]
    blend_level_error [OF c(5,6) bg' b(1)]
  have val: "value_to_color v md c
      = Inr (min \<lfloor>valof wr\<rfloor> 255, min \<lfloor>valof wg\<rfloor> 255, min \<lfloor>valof wb\<rfloor> 255)"
    by (simp add: value_to_color_def bind_err_def ratio bg(2) r(2) g(2) b(2))
  have ch: "0 \<le> min \<lfloor>valof wr\<rfloor> 255" "min \<lfloor>valof wr\<rfloor> 255 \<le> 255"
    "0 \<le> min \<lfloor>valof wg\<rfloor> 255" "min \<lfloor>valof wg\<rfloor> 255 \<le> 255"
    "0 \<le> min \<lfloor>valof wb\<rfloor> 255" "min \<lfloor>valof wb\<rfloor> 255 \<le> 255"
    using r(3) g(3) b(3) by simp_all
  show ?thesis
    by (intro exI [of _ ratio] exI [of _ u] exI [of _ bg] exI [of _ wr] exI [of _ wg]
        exI [of _ wb] conjI)
      (rule ratio er bg eu clamp r g b ew val ch)+
qed

text \<open>The two literals are the floats nearest to 1/10 and 9/10.\<close>

lemma float_literals:
  "int_true_div 1 10 = Inr (7205759403792794, - 56)
   \<and> valof (7205759403792794, - 56) = valof fl_0_1
   \<and> int_true_div 9 10 = Inr fl_0_9"
proof -
  have "int_true_div 1 10 = Inr (7205759403792794, - 56)" "int_true_div 9 10 = Inr fl_0_9"
    by code_simp+
  then show ?thesis
    by (simp add: valof_def fl_0_1_def power_int_minus)
qed

section \<open>Facts about the generation loop\<close>

lemma registry_cases:
  assumes "map_of ALGORITHMS name = Some algo"
  shows "(func algo = lcg \<or> func algo = park_miller \<or> func algo = xorshift
          \<or> func algo = multiply_with_carry) \<and> byte_tint (color algo)"
  using assms by (auto simp add: ALGORITHMS_def byte_tint_def split: if_splits)

lemma well_ranged_steps:
  "well_ranged lcg" "well_ranged park_miller" "well_ranged xorshift"
  "well_ranged multiply_with_carry"
proof -
  have "\<And>s. 0 < snd (lcg s) \<and> 0 < snd (park_miller s) \<and> 0 < snd (xorshift s)
      \<and> 0 < snd (multiply_with_carry s)"
    by (simp add: lcg_def park_miller_def xorshift_def multiply_with_carry_def Let_def)
  then show "well_ranged lcg" "well_ranged park_miller" "well_ranged xorshift"
    "well_ranged multiply_with_carry"
    using lcg_range park_miller_range xorshift_range multiply_with_carry_range
    unfolding well_ranged_def by (simp_all add: less_imp_le)
qed

lemma registry_well_ranged:
  assumes "map_of ALGORITHMS name = Some algo"
  shows "well_ranged (func algo) \<and> byte_tint (color algo)"
  using registry_cases [OF assms] well_ranged_steps by auto

text \<open>The loop never raises, and its variables are these functions of the raw values.\<close>

lemma generate_cells_result:
  assumes "well_ranged f" "byte_tint c"
  shows "\<exists>cv. generate_cells f c cells ls =
           Inr \<lparr>cur_s = last (cur_s ls # raw_values f (length cells) (cur_s ls)),
                last_value = last (last_value ls # raw_values f (length cells) (cur_s ls)),
                min_val = foldl py_min (min_val ls) (raw_values f (length cells) (cur_s ls)),
                max_val = foldl max (max_val ls) (raw_values f (length cells) (cur_s ls)),
                canvas = cv\<rparr>
         \<and> length cv = length (canvas ls) + length cells"
proof (induction cells arbitrary: ls)
  case Nil
  show ?case
    by (rule exI [of _ "canvas ls"]) simp
next
  case (Cons cell cells)
  obtain x y where cell: "cell = (x, y)"
    by (cases cell)
  define s where "s = fst (f (cur_s ls))"
  define md where "md = snd (f (cur_s ls))"
  have "0 \<le> s" "s \<le> md" "0 < md"
    using assms(1) by (simp_all add: well_ranged_def s_def md_def)
  from value_to_color_ok [OF this assms(2)]
  obtain col where col: "value_to_color s md c = Inr col"
    by auto
  define ls' where "ls' = \<lparr>cur_s = s, last_value = s, min_val = py_min (min_val ls) s,
    max_val = max (max_val ls) s, canvas = canvas ls @ [create_rectangle x y col]\<rparr>"
  have step: "generate_cells f c (cell # cells) ls = generate_cells f c cells ls'"
    using col by (simp add: cell Let_def ls'_def flip: s_def md_def)
  from Cons.IH [of ls'] obtain cv where
    "generate_cells f c cells ls' =
       Inr \<lparr>cur_s = last (cur_s ls' # raw_values f (length cells) (cur_s ls')),
            last_value = last (last_value ls' # raw_values f (length cells) (cur_s ls')),
            min_val = foldl py_min (min_val ls') (raw_values f (length cells) (cur_s ls')),
            max_val = foldl max (max_val ls') (raw_values f (length cells) (cur_s ls')),
            canvas = cv\<rparr>"
    "length cv = length (canvas ls') + length cells"
    by blast
  then show ?case
    unfolding step by (simp add: ls'_def s_def)
qed

lemma length_grid_cells: "length (grid_cells w h) = w * h"
  by (induction h) (simp_all add: grid_cells_def)

lemma length_raw_values: "length (raw_values f n s) = n"
  by (induction n arbitrary: s) simp_all

lemma raw_values_nonneg:
  assumes "well_ranged f"
  shows "v \<in> set (raw_values f n s) \<Longrightarrow> 0 \<le> v"
  using assms by (induction n arbitrary: s) (auto simp add: well_ranged_def)

lemma foldl_py_min_int:
  "foldl py_min (Py_int m) vs = Py_int (Min (insert m (set vs)))"
proof (induction vs arbitrary: m)
  case Nil
  then show ?case
    by simp
next
  case (Cons v vs)
  have "py_min (Py_int m) v = Py_int (min m v)"
    by (simp add: min_def)
  moreover have "Min (insert (min m v) (set vs)) = Min (insert m (insert v (set vs)))"
    by (cases "set vs = {}") (simp_all add: min.assoc)
  ultimately show ?case
    using Cons.IH [of "min m v"] by simp
qed

lemma foldl_py_min_inf:
  assumes "vs \<noteq> []"
  shows "foldl py_min Float_inf vs = Py_int (Min (set vs))"
proof -
  obtain v vs' where vs: "vs = v # vs'"
    using assms by (cases vs) auto
  then show ?thesis
    by (simp add: foldl_py_min_int)
qed

lemma foldl_max_Max: "foldl max (m :: int) vs = Max (insert m (set vs))"
proof (induction vs arbitrary: m)
  case Nil
  then show ?case
    by simp
next
  case (Cons v vs)
  have "Max (insert (max m v) (set vs)) = Max (insert m (insert v (set vs)))"
    by (cases "set vs = {}") (simp_all add: max.assoc)
  then show ?case
    using Cons.IH [of "max m v"] by simp
qed

lemma foldl_max_zero:
  assumes "vs \<noteq> []" "\<And>v. v \<in> set vs \<Longrightarrow> 0 \<le> v"
  shows "foldl max (0 :: int) vs = Max (set vs)"
proof -
  have "Max (insert 0 (set vs)) = max 0 (Max (set vs))"
    using assms(1) by simp
  moreover have "0 \<le> Max (set vs)"
    using assms by (simp add: Max_ge_iff) (meson last_in_set)
  ultimately show ?thesis
    by (simp add: foldl_max_Max)
qed

lemma read_seed_in_flight:
  "fst (read_seed ev (st\<lparr>is_generating := True, status_label := Generating\<rparr>)) = fst (read_seed ev st)"
  "seed_entry (snd (read_seed ev (st\<lparr>is_generating := True, status_label := Generating\<rparr>)))
     = seed_entry (snd (read_seed ev st))"
  by (simp_all add: read_seed_def Let_def split: option.splits)

lemma generate_visualization_run:
  assumes "\<not> is_generating st" "map_of ALGORITHMS (current_algorithm st) = Some algo"
  shows "\<exists>ls. generate_cells (func algo) (color algo) (grid_cells GRID_W GRID_H)
                (loop_init (fst (read_seed ev st))) = Inr ls
    \<and> generate_visualization ev st =
        (None,
         \<lparr>current_algorithm = current_algorithm st, is_generating = False,
          status_label = Generated (GRID_W * GRID_H) (current_algorithm st),
          seed_entry = seed_entry (snd (read_seed ev st)),
          grid_canvas = canvas ls,
          stats_items =
            Some \<lparr>final_value = last_value ls, iterations = GRID_W * GRID_H,
                  min_value = min_val ls, max_value = max_val ls,
                  generation_time = clock_end ev - clock_start ev\<rparr>\<rparr>)"
proof -
  have "well_ranged (func algo)" "byte_tint (color algo)"
    using registry_well_ranged [OF assms(2)] by simp_all
  from generate_cells_result [OF this]
  obtain ls where ls: "generate_cells (func algo) (color algo) (grid_cells GRID_W GRID_H)
      (loop_init (fst (read_seed ev st))) = Inr ls"
    by blast
  have "generate_visualization ev st =
        (None,
         \<lparr>current_algorithm = current_algorithm st, is_generating = False,
          status_label = Generated (GRID_W * GRID_H) (current_algorithm st),
          seed_entry = seed_entry (snd (read_seed ev st)),
          grid_canvas = canvas ls,
          stats_items =
            Some \<lparr>final_value = last_value ls, iterations = GRID_W * GRID_H,
                  min_value = min_val ls, max_value = max_val ls,
                  generation_time = clock_end ev - clock_start ev\<rparr>\<rparr>)"
    using assms ls
    by (simp add: generate_visualization_def Let_def read_seed_in_flight)
       (simp add: read_seed_def Let_def split: option.splits)
  with ls show ?thesis
    by blast
qed

lemma run_stats:
  assumes "well_ranged f" "byte_tint c" "cells \<noteq> []"
  shows "\<exists>ls. generate_cells f c cells (loop_init seed) = Inr ls
    \<and> last_value ls = last (raw_values f (length cells) seed)
    \<and> min_val ls = Py_int (Min (set (raw_values f (length cells) seed)))
    \<and> max_val ls = Max (set (raw_values f (length cells) seed))
    \<and> length (canvas ls) = length cells"
proof -
  define vs where "vs = raw_values f (length cells) seed"
  have "length vs = length cells"
    by (simp add: vs_def length_raw_values)
  with assms(3) have ne: "vs \<noteq> []"
    by auto
  have nonneg: "\<And>v. v \<in> set vs \<Longrightarrow> 0 \<le> v"
    unfolding vs_def using assms(1) by (rule raw_values_nonneg)
  from generate_cells_result [OF assms(1,2), of cells "loop_init seed"]
  obtain ls where ls: "generate_cells f c cells (loop_init seed) = Inr ls"
    "last_value ls = last (seed # vs)" "min_val ls = foldl py_min Float_inf vs"
    "max_val ls = foldl max 0 vs" "length (canvas ls) = length cells"
    by (auto simp add: loop_init_def vs_def)
  have "last_value ls = last vs"
    using ls(2) ne by simp
  moreover have "min_val ls = Py_int (Min (set vs))"
    using ls(3) ne by (simp add: foldl_py_min_inf)
  moreover have "max_val ls = Max (set vs)"
    using ls(4) ne nonneg by (simp add: foldl_max_zero)
  ultimately show ?thesis
    using ls(1,5) unfolding vs_def by blast
qed

lemma run_stats_ordered:
  assumes "well_ranged f" "byte_tint c" "cells \<noteq> []"
  shows "\<exists>ls. generate_cells f c cells (loop_init seed) = Inr ls
    \<and> py_num_le (min_val ls) (last_value ls) \<and> last_value ls \<le> max_val ls
    \<and> py_num_le (min_val ls) (max_val ls)"
proof -
  define vs where "vs = raw_values f (length cells) seed"
  have "length vs = length cells"
    by (simp add: vs_def length_raw_values)
  with assms(3) have ne: "vs \<noteq> []"
    by auto
  then have "last vs \<in> set vs"
    by simp
  then have "Min (set vs) \<le> last vs" "last vs \<le> Max (set vs)"
    by simp_all
  moreover from run_stats [OF assms, of seed]
  obtain ls where "generate_cells f c cells (loop_init seed) = Inr ls"
    "last_value ls = last vs" "min_val ls = Py_int (Min (set vs))"
    "max_val ls = Max (set vs)"
    unfolding vs_def by blast
  ultimately show ?thesis
    by auto
qed

lemma grid_cells_nonempty: "0 < w * h \<Longrightarrow> grid_cells w h \<noteq> []"
  using length_grid_cells [of w h] by auto

lemma GRID_nonempty: "0 < GRID_W * GRID_H"
  by (simp add: GRID_W_def GRID_H_def)

lemma registered_default:
  "map_of ALGORITHMS (current_algorithm app_init) = Some (snd (hd ALGORITHMS))"
  by (simp add: ALGORITHMS_def app_init_def)

lemma randint_range:
  assumes "a \<le> b"
  shows "a \<le> randint a b draw \<and> randint a b draw \<le> b"
proof -
  have "0 < b - a + 1"
    using assms by simp
  then have "0 \<le> int draw mod (b - a + 1)" "int draw mod (b - a + 1) < b - a + 1"
    by (rule pos_mod_sign, rule pos_mod_bound)
  then show ?thesis
    unfolding randint_def by linarith
qed

section \<open>The step functions and the table of recurrences\<close>

text \<open>
  Claim C1. For every unsigned 64-bit state \<open>s\<close> (the value \<open>uint w\<close> of a 64-bit word),
  \<open>lcg\<close>, \<open>park_miller\<close> and \<open>multiply_with_carry\<close> return exactly the pair of the table:
  \<open>((s * 9301 + 49297) mod 233280, 233280)\<close>, \<open>((s * 16807) mod 2147483647, 2147483647)\<close> and
  \<open>((4294957665 * (s & 0xFFFFFFFF) + ((s >> 32) & 0xFFFFFFFF)) & 0xFFFFFFFFFFFFFFFF,
  0xFFFFFFFFFFFFFFFF)\<close>. The products and sums are those of unbounded integers; only the
  written \<open>mod\<close> and masks reduce them.
\<close>

theorem step_functions_table:
  fixes w :: "64 word"
  shows "lcg (uint w) = ((uint w * 9301 + 49297) mod 233280, 233280)
    \<and> park_miller (uint w) = ((uint w * 16807) mod 2147483647, 2147483647)
    \<and> multiply_with_carry (uint w) =
        ((4294957665 * (uint w AND 0xFFFFFFFF) + (drop_bit 32 (uint w) AND 0xFFFFFFFF))
           AND 0xFFFFFFFFFFFFFFFF, 0xFFFFFFFFFFFFFFFF)"
  by (simp add: lcg_def park_miller_def multiply_with_carry_def Let_def)

text \<open>
  Claim C2, at the seed \<open>-1\<close>. The source masks the two left shifts and the result, not the
  state it is given: the bits of \<open>-1\<close> above bit 31 survive the first assignment and
  \<^verbatim>\<open>s >> 17\<close> moves them into the low 32 bits. The source returns \<open>811039\<close>; the recurrence
  with every intermediate result masked to 32 bits returns \<open>253983\<close>. The same happens at
  \<open>2 ^ 32\<close>, the least state that does not fit 32 bits.
\<close>

theorem xorshift_unmasked_state:
  "xorshift (- 1) = (811039, 4294967295) \<and> spec_xorshift (- 1) = (253983, 4294967295)
   \<and> xorshift 4294967296 = (1081344, 4294967295)
   \<and> spec_xorshift 4294967296 = (0, 4294967295)"
  by code_simp

section \<open>Calls that do not generate\<close>

text \<open>
  Claim C10. If a run is in progress (\<open>is_generating\<close> is set) when
  \<open>generate_visualization\<close> is invoked, the invocation returns at once, without an
  exception, and leaves the whole application state as it was: grid, statistics, status
  text, seed field and the flag itself.
\<close>

theorem generate_in_flight_noop:
  "is_generating st \<Longrightarrow> generate_visualization ev st = (None, st)"
  by (simp add: generate_visualization_def)

theorem generate_in_flight_noop_witness:
  "is_generating (app_init\<lparr>is_generating := True\<rparr>)
   \<and> generate_visualization env_example (app_init\<lparr>is_generating := True\<rparr>)
       = (None, app_init\<lparr>is_generating := True\<rparr>)"
  using generate_in_flight_noop [of "app_init\<lparr>is_generating := True\<rparr>" env_example]
  by simp

text \<open>
  Claim C5 as stated fails: with an unregistered algorithm name the call does raise
  \<open>KeyError\<close>, but the in-flight flag and the status text have been written before the
  lookup, so the state after the failing call is not the state before it.
\<close>

theorem unknown_algorithm_mutates_state:
  "fst (generate_visualization env_example (app_init\<lparr>current_algorithm := ''Mersenne Twister''\<rparr>))
     = Some (KeyError ''Mersenne Twister'')
   \<and> snd (generate_visualization env_example (app_init\<lparr>current_algorithm := ''Mersenne Twister''\<rparr>))
     \<noteq> app_init\<lparr>current_algorithm := ''Mersenne Twister''\<rparr>
   \<and> is_generating
       (snd (generate_visualization env_example (app_init\<lparr>current_algorithm := ''Mersenne Twister''\<rparr>)))
   \<and> status_label
       (snd (generate_visualization env_example (app_init\<lparr>current_algorithm := ''Mersenne Twister''\<rparr>)))
     = Generating"
  by (simp add: generate_visualization_def ALGORITHMS_def app_init_def Let_def)

text \<open>
  Claim C5, amended. When no run is in progress and the selected algorithm name is not
  registered, \<open>generate_visualization\<close> raises \<open>KeyError\<close> for that name; the grid, the
  statistics, the seed field and the selection are left untouched, and the only fields
  written are the in-flight flag (set) and the status text (\<^verbatim>\<open>"Generating..."\<close>).
\<close>

theorem unknown_algorithm_frame:
  assumes "\<not> is_generating st"
    and "map_of ALGORITHMS (current_algorithm st) = None"
  shows "generate_visualization ev st
           = (Some (KeyError (current_algorithm st)),
              st\<lparr>is_generating := True, status_label := Generating\<rparr>)
    \<and> grid_canvas (snd (generate_visualization ev st)) = grid_canvas st
    \<and> stats_items (snd (generate_visualization ev st)) = stats_items st
    \<and> seed_entry (snd (generate_visualization ev st)) = seed_entry st"
  using assms by (simp add: generate_visualization_def Let_def)

theorem unknown_algorithm_frame_witness:
  "\<not> is_generating (app_init\<lparr>current_algorithm := ''Mersenne Twister''\<rparr>)
   \<and> map_of ALGORITHMS (current_algorithm (app_init\<lparr>current_algorithm := ''Mersenne Twister''\<rparr>))
       = None
   \<and> generate_visualization env_example (app_init\<lparr>current_algorithm := ''Mersenne Twister''\<rparr>)
       = (Some (KeyError ''Mersenne Twister''),
          app_init\<lparr>current_algorithm := ''Mersenne Twister'', is_generating := True,
                   status_label := Generating\<rparr>)
   \<and> grid_canvas
        (snd (generate_visualization env_example (app_init\<lparr>current_algorithm := ''Mersenne Twister''\<rparr>)))
       = []
   \<and> stats_items
        (snd (generate_visualization env_example (app_init\<lparr>current_algorithm := ''Mersenne Twister''\<rparr>)))
       = None
   \<and> seed_entry
        (snd (generate_visualization env_example (app_init\<lparr>current_algorithm := ''Mersenne Twister''\<rparr>)))
       = ''12345''"
proof -
  have h1: "\<not> is_generating (app_init\<lparr>current_algorithm := ''Mersenne Twister''\<rparr>)"
    by (simp add: app_init_def)
  have h2: "map_of ALGORITHMS (current_algorithm (app_init\<lparr>current_algorithm := ''Mersenne Twister''\<rparr>))
              = None"
    by (simp add: ALGORITHMS_def)
  show ?thesis
    using h1 h2 unknown_algorithm_frame [OF h1 h2, of env_example]
    by (simp add: app_init_def)
qed

section \<open>The ratio of a raw value to its range\<close>

text \<open>
  Claim C9 as stated fails for Xorshift, whose range is the mask \<open>0xFFFFFFFF\<close> itself: the
  state \<open>1584200935\<close> steps to the raw value \<open>4294967295\<close>, and the ratio is exactly 1, as
  a real number and as the float that \<^verbatim>\<open>value_to_color\<close> computes.
\<close>

theorem xorshift_ratio_reaches_one:
  "xorshift 1584200935 = (4294967295, 4294967295)
   \<and> raw_values xorshift 1 1584200935 = [4294967295]
   \<and> \<not> ratio_of xorshift 1584200935 < 1
   \<and> int_true_div 4294967295 4294967295 = Inr (4503599627370496, - 52)
   \<and> valof (4503599627370496, - 52) = 1"
proof -
  have "int_true_div 4294967295 4294967295 = Inr (4503599627370496, - 52)"
    by code_simp
  moreover have "valof (4503599627370496, - 52) = 1"
    by (simp add: valof_def power_int_minus)
  ultimately show ?thesis
    by (simp add: ratio_of_def xorshift_def)
qed

text \<open>
  Claim C9, amended. For every integer state, the raw value divided by the range returned
  with it lies in the closed interval [0, 1]; it is below 1 for the linear congruential,
  Park-Miller and multiply-with-carry steps, and can equal 1 for Xorshift.
\<close>

theorem ratio_in_unit_interval:
  "0 \<le> ratio_of lcg s \<and> ratio_of lcg s < 1
   \<and> 0 \<le> ratio_of park_miller s \<and> ratio_of park_miller s < 1
   \<and> 0 \<le> ratio_of multiply_with_carry s \<and> ratio_of multiply_with_carry s < 1
   \<and> 0 \<le> ratio_of xorshift s \<and> ratio_of xorshift s \<le> 1"
proof -
  have pos: "0 < snd (lcg s)" "0 < snd (park_miller s)" "0 < snd (multiply_with_carry s)"
    "0 < snd (xorshift s)"
    by (simp_all add: lcg_def park_miller_def multiply_with_carry_def xorshift_def Let_def)
  show ?thesis
    using lcg_range [of s] park_miller_range [of s] multiply_with_carry_range [of s]
      xorshift_range [of s] pos
    by (simp add: ratio_of_def)
qed

section \<open>Runs of the generation loop\<close>

text \<open>
  Claim C4. For each of the four algorithms and any seed text that parses, generation is
  deterministic: two calls that start with the same selected algorithm and seed texts that
  parse to the same integer, from whatever prior states and with whatever clock readings and
  random draws, both return without an exception and leave the same grid, rectangle for
  rectangle (\<open>GRID_W * GRID_H\<close> of them), and the same final value, minimum, maximum and
  iteration count. The generation time is left out: it is the difference of the two clock
  readings.
\<close>

theorem generate_deterministic:
  assumes "current_algorithm st1 = current_algorithm st2"
    and "map_of ALGORITHMS (current_algorithm st1) = Some algo"
    and "py_int ev1 (seed_entry st1) = Some seed"
    and "py_int ev2 (seed_entry st2) = Some seed"
    and "\<not> is_generating st1" "\<not> is_generating st2"
  shows "fst (generate_visualization ev1 st1) = None
    \<and> fst (generate_visualization ev2 st2) = None
    \<and> grid_canvas (snd (generate_visualization ev1 st1))
        = grid_canvas (snd (generate_visualization ev2 st2))
    \<and> length (grid_canvas (snd (generate_visualization ev1 st1))) = GRID_W * GRID_H
    \<and> (\<exists>s1 s2. stats_items (snd (generate_visualization ev1 st1)) = Some s1
          \<and> stats_items (snd (generate_visualization ev2 st2)) = Some s2
          \<and> final_value s1 = final_value s2 \<and> min_value s1 = min_value s2
          \<and> max_value s1 = max_value s2 \<and> iterations s1 = iterations s2)"
proof -
  have reg2: "map_of ALGORITHMS (current_algorithm st2) = Some algo"
    using assms(1,2) by simp
  have seed1: "fst (read_seed ev1 st1) = seed" and seed2: "fst (read_seed ev2 st2) = seed"
    using assms(3,4) by (simp_all add: read_seed_def)
  have wr: "well_ranged (func algo)" "byte_tint (color algo)"
    using registry_well_ranged [OF assms(2)] by simp_all
  from run_stats [OF wr grid_cells_nonempty [OF GRID_nonempty], of seed]
  obtain ls where ls: "generate_cells (func algo) (color algo) (grid_cells GRID_W GRID_H)
      (loop_init seed) = Inr ls" "length (canvas ls) = GRID_W * GRID_H"
    by (auto simp add: length_grid_cells)
  from generate_visualization_run [OF assms(5,2), of ev1]
    generate_visualization_run [OF assms(6) reg2, of ev2] ls
  show ?thesis
    unfolding seed1 seed2 by auto
qed

theorem generate_deterministic_witness:
  "current_algorithm app_init = current_algorithm (app_init\<lparr>status_label := Other_text ''Grid cleared''\<rparr>)
   \<and> map_of ALGORITHMS (current_algorithm app_init) = Some (snd (hd ALGORITHMS))
   \<and> py_int env_example (seed_entry app_init) = Some 12345
   \<and> py_int (env_example\<lparr>random_draw := 7, clock_start := 10, clock_end := 12\<rparr>)
        (seed_entry (app_init\<lparr>status_label := Other_text ''Grid cleared''\<rparr>)) = Some 12345
   \<and> \<not> is_generating app_init
   \<and> \<not> is_generating (app_init\<lparr>status_label := Other_text ''Grid cleared''\<rparr>)
   \<and> fst (generate_visualization env_example app_init) = None
   \<and> fst (generate_visualization
            (env_example\<lparr>random_draw := 7, clock_start := 10, clock_end := 12\<rparr>)
            (app_init\<lparr>status_label := Other_text ''Grid cleared''\<rparr>)) = None
   \<and> grid_canvas (snd (generate_visualization env_example app_init))
       = grid_canvas (snd (generate_visualization
            (env_example\<lparr>random_draw := 7, clock_start := 10, clock_end := 12\<rparr>)
            (app_init\<lparr>status_label := Other_text ''Grid cleared''\<rparr>)))"
proof -
  have h1: "current_algorithm app_init
      = current_algorithm (app_init\<lparr>status_label := Other_text ''Grid cleared''\<rparr>)"
    by simp
  have h3: "py_int env_example (seed_entry app_init) = Some 12345"
    by (simp add: env_example_def app_init_def)
  have h4: "py_int (env_example\<lparr>random_draw := 7, clock_start := 10, clock_end := 12\<rparr>)
        (seed_entry (app_init\<lparr>status_label := Other_text ''Grid cleared''\<rparr>)) = Some 12345"
    by (simp add: env_example_def app_init_def)
  have h5: "\<not> is_generating app_init"
    by (simp add: app_init_def)
  have h6: "\<not> is_generating (app_init\<lparr>status_label := Other_text ''Grid cleared''\<rparr>)"
    by (simp add: app_init_def)
  show ?thesis
    using h1 h3 h4 h5 h6 registered_default
      generate_deterministic [OF h1 registered_default h3 h4 h5 h6]
    by simp
qed

text \<open>
  Claim C6 as stated fails in its first half: there is no registered algorithm, seed and
  non-empty grid whose run ends with \<open>min_val <= last_value <= max_val\<close> violated. The last
  raw value is one of the values the minimum and the maximum are taken over.
\<close>

theorem last_value_always_between:
  "\<not> (\<exists>name algo seed w h ls.
        map_of ALGORITHMS name = Some algo \<and> 0 < w * h
        \<and> generate_cells (func algo) (color algo) (grid_cells w h) (loop_init seed) = Inr ls
        \<and> \<not> (py_num_le (min_val ls) (last_value ls) \<and> last_value ls \<le> max_val ls))"
proof
  assume "\<exists>name algo seed w h ls.
        map_of ALGORITHMS name = Some algo \<and> 0 < w * h
        \<and> generate_cells (func algo) (color algo) (grid_cells w h) (loop_init seed) = Inr ls
        \<and> \<not> (py_num_le (min_val ls) (last_value ls) \<and> last_value ls \<le> max_val ls)"
  then obtain name algo seed w h ls where reg: "map_of ALGORITHMS name = Some algo"
    and wh: "0 < w * h"
    and run: "generate_cells (func algo) (color algo) (grid_cells w h) (loop_init seed) = Inr ls"
    and bad: "\<not> (py_num_le (min_val ls) (last_value ls) \<and> last_value ls \<le> max_val ls)"
    by blast
  have "well_ranged (func algo)" "byte_tint (color algo)"
    using registry_well_ranged [OF reg] by simp_all
  from run_stats_ordered [OF this grid_cells_nonempty [OF wh], of seed] run bad
  show False
    by auto
qed

text \<open>
  Claim C6, amended. After a generation run the iteration count is positive and
  \<open>min_value <= last_value <= max_value\<close> holds, hence also \<open>min_value <= max_value\<close>.
\<close>

theorem stats_ordered:
  assumes "\<not> is_generating st" "map_of ALGORITHMS (current_algorithm st) = Some algo"
  shows "\<exists>s. stats_items (snd (generate_visualization ev st)) = Some s
    \<and> 0 < iterations s
    \<and> py_num_le (min_value s) (final_value s) \<and> final_value s \<le> max_value s
    \<and> py_num_le (min_value s) (max_value s)"
proof -
  have wr: "well_ranged (func algo)" "byte_tint (color algo)"
    using registry_well_ranged [OF assms(2)] by simp_all
  from run_stats_ordered [OF wr grid_cells_nonempty [OF GRID_nonempty], of "fst (read_seed ev st)"]
    generate_visualization_run [OF assms, of ev] GRID_nonempty
  show ?thesis
    by auto
qed

theorem stats_ordered_witness:
  "\<not> is_generating app_init
   \<and> map_of ALGORITHMS (current_algorithm app_init) = Some (snd (hd ALGORITHMS))
   \<and> (\<exists>s. stats_items (snd (generate_visualization env_example app_init)) = Some s
        \<and> 0 < iterations s
        \<and> py_num_le (min_value s) (final_value s) \<and> final_value s \<le> max_value s
        \<and> py_num_le (min_value s) (max_value s))"
proof -
  have h1: "\<not> is_generating app_init"
    by (simp add: app_init_def)
  show ?thesis
    using h1 registered_default stats_ordered [OF h1 registered_default, of env_example]
    by simp
qed

text \<open>
  Claim C7. Before the loop \<open>min_val\<close> is \<^verbatim>\<open>float('inf')\<close>, which no integer reaches, and
  \<open>max_val\<close> is 0; after the run the two statistics are the minimum and the maximum of the
  raw values of that run alone, whatever statistics the application held before.
\<close>

theorem min_max_tracking:
  assumes "\<not> is_generating st" "map_of ALGORITHMS (current_algorithm st) = Some algo"
  shows "min_val (loop_init seed0) = Float_inf \<and> max_val (loop_init seed0) = 0
    \<and> \<not> py_num_le Float_inf n
    \<and> (\<exists>s. stats_items (snd (generate_visualization ev st)) = Some s
          \<and> min_value s
              = Py_int (Min (set (raw_values (func algo) (GRID_W * GRID_H) (fst (read_seed ev st)))))
          \<and> max_value s
              = Max (set (raw_values (func algo) (GRID_W * GRID_H) (fst (read_seed ev st)))))"
proof -
  have wr: "well_ranged (func algo)" "byte_tint (color algo)"
    using registry_well_ranged [OF assms(2)] by simp_all
  from run_stats [OF wr grid_cells_nonempty [OF GRID_nonempty], of "fst (read_seed ev st)"]
    generate_visualization_run [OF assms, of ev]
  have "\<exists>s. stats_items (snd (generate_visualization ev st)) = Some s
          \<and> min_value s
              = Py_int (Min (set (raw_values (func algo) (GRID_W * GRID_H) (fst (read_seed ev st)))))
          \<and> max_value s
              = Max (set (raw_values (func algo) (GRID_W * GRID_H) (fst (read_seed ev st))))"
    by (auto simp add: length_grid_cells)
  then show ?thesis
    by (simp add: loop_init_def)
qed

theorem min_max_tracking_witness:
  "\<not> is_generating app_init
   \<and> map_of ALGORITHMS (current_algorithm app_init) = Some (snd (hd ALGORITHMS))
   \<and> min_val (loop_init 12345) = Float_inf \<and> max_val (loop_init 12345) = 0
   \<and> \<not> py_num_le Float_inf 12345
   \<and> (\<exists>s. stats_items (snd (generate_visualization env_example app_init)) = Some s
          \<and> min_value s
              = Py_int (Min (set (raw_values (func (snd (hd ALGORITHMS))) (GRID_W * GRID_H)
                                   (fst (read_seed env_example app_init)))))
          \<and> max_value s
              = Max (set (raw_values (func (snd (hd ALGORITHMS))) (GRID_W * GRID_H)
                           (fst (read_seed env_example app_init)))))"
proof -
  have h1: "\<not> is_generating app_init"
    by (simp add: app_init_def)
  show ?thesis
    using h1 registered_default
      min_max_tracking [OF h1 registered_default, of 12345 12345 env_example]
    by simp
qed

text \<open>
  Claim C8. When the seed text does not parse as an integer (and the selected algorithm is
  registered and no run is in progress), the call does not fail: the seed is the number
  \<open>randint 1 999999\<close> draws, which lies in 1..999999; the seed field is overwritten with its
  decimal text; and the grid and the statistics are those of the run from that seed.
\<close>

theorem seed_substitution:
  assumes "\<not> is_generating st" "map_of ALGORITHMS (current_algorithm st) = Some algo"
    and "py_int ev (seed_entry st) = None"
  shows "fst (generate_visualization ev st) = None
    \<and> 1 \<le> randint 1 999999 (random_draw ev) \<and> randint 1 999999 (random_draw ev) \<le> 999999
    \<and> seed_entry (snd (generate_visualization ev st)) = py_str (randint 1 999999 (random_draw ev))
    \<and> (\<exists>ls. generate_cells (func algo) (color algo) (grid_cells GRID_W GRID_H)
                (loop_init (randint 1 999999 (random_draw ev))) = Inr ls
          \<and> grid_canvas (snd (generate_visualization ev st)) = canvas ls
          \<and> stats_items (snd (generate_visualization ev st))
              = Some \<lparr>final_value = last_value ls, iterations = GRID_W * GRID_H,
                      min_value = min_val ls, max_value = max_val ls,
                      generation_time = clock_end ev - clock_start ev\<rparr>)"
proof -
  have seed: "read_seed ev st = (randint 1 999999 (random_draw ev),
      st\<lparr>seed_entry := py_str (randint 1 999999 (random_draw ev))\<rparr>)"
    using assms(3) by (simp add: read_seed_def Let_def)
  from generate_visualization_run [OF assms(1,2), of ev] randint_range [of 1 999999 "random_draw ev"]
  show ?thesis
    unfolding seed by auto
qed

theorem seed_substitution_witness:
  "\<not> is_generating (app_init\<lparr>seed_entry := ''abc''\<rparr>)
   \<and> map_of ALGORITHMS (current_algorithm (app_init\<lparr>seed_entry := ''abc''\<rparr>))
       = Some (snd (hd ALGORITHMS))
   \<and> py_int env_example (seed_entry (app_init\<lparr>seed_entry := ''abc''\<rparr>)) = None
   \<and> fst (generate_visualization env_example (app_init\<lparr>seed_entry := ''abc''\<rparr>)) = None
   \<and> randint 1 999999 (random_draw env_example) = 42
   \<and> seed_entry (snd (generate_visualization env_example (app_init\<lparr>seed_entry := ''abc''\<rparr>)))
       = ''42''"
proof -
  have h1: "\<not> is_generating (app_init\<lparr>seed_entry := ''abc''\<rparr>)"
    by (simp add: app_init_def)
  have h2: "map_of ALGORITHMS (current_algorithm (app_init\<lparr>seed_entry := ''abc''\<rparr>))
       = Some (snd (hd ALGORITHMS))"
    using registered_default by simp
  have h3: "py_int env_example (seed_entry (app_init\<lparr>seed_entry := ''abc''\<rparr>)) = None"
    by (simp add: env_example_def)
  have r: "randint 1 999999 (random_draw env_example) = 42"
    by (simp add: randint_def env_example_def)
  have s: "py_str 42 = ''42''"
    by code_simp
  show ?thesis
    using h1 h2 h3 r s seed_substitution [OF h1 h2 h3]
    by simp
qed

section \<open>The colour of a cell\<close>

text \<open>
  Claim C3 as stated fails: the source converts with \<^verbatim>\<open>int(...)\<close>, which truncates, where the
  claim rounds. With the default algorithm and the default seed text \<^verbatim>\<open>"12345"\<close> the first raw
  value is 96382 of 233280: \<open>ratio * 200 + 20\<close> is about 102.63, the source takes
  \<open>base_gray = 102\<close> and returns the channels \<open>(91, 113, 117)\<close>, while rounding gives 103, whose
  blend with the red channel 0 of the tint is 92.7.
\<close>

theorem base_gray_truncated_not_rounded:
  "lcg 12345 = (96382, 233280)
   \<and> bind_err (int_true_div 96382 233280) base_gray_of = Inr 102
   \<and> spec_base_gray 96382 233280 = 103
   \<and> value_to_color 96382 233280 (0, 212, 255) = Inr (91, 113, 117)
   \<and> spec_blend 0 (spec_base_gray 96382 233280) = 927 / 10"
proof -
  have "lcg 12345 = (96382, 233280)"
    by (simp add: lcg_def)
  moreover have "bind_err (int_true_div 96382 233280) base_gray_of = Inr 102"
    by code_simp
  moreover have sb: "spec_base_gray 96382 233280 = 103"
    by (simp add: spec_base_gray_def round_def)
  moreover have "value_to_color 96382 233280 (0, 212, 255) = Inr (91, 113, 117)"
    by code_simp
  moreover have "spec_blend 0 (spec_base_gray 96382 233280) = 927 / 10"
    unfolding sb by (simp add: spec_blend_def)
  ultimately show ?thesis
    by (simp only: simp_thms)
qed

text \<open>
  Claim C3, amended. For every raw value \<open>v\<close> with \<open>0 <= v <= range\<close>, \<open>0 < range\<close>, and every
  tint of three bytes, the colour mapping raises nothing and computes \<open>ratio = v / range\<close> by
  float division, a ratio in [0, 1] within \<open>2 ^ -52\<close> of the real quotient; \<open>base_gray\<close> is
  the float \<open>ratio * 200 + 20\<close>, within \<open>2 ^ -42\<close> of the real value, truncated to an
  integer (its floor, not the nearest integer), which lies in [20, 220], so that clamping
  to [0, 255] leaves it unchanged; each channel is the float blend of 10% tint and 90% \<open>base_gray\<close>, again within
  \<open>2 ^ -42\<close> of the real blend, truncated and capped at 255, and lies in [0, 255]. The
  colour is a function of \<open>(v, range, tint)\<close> alone.
\<close>

theorem value_to_color_channels:
  assumes "0 \<le> v" "v \<le> md" "0 < md" "byte_tint c"
  shows "\<exists>ratio u bg wr wg wb.
     int_true_div v md = Inr ratio \<and> 0 \<le> valof ratio \<and> valof ratio \<le> 1
     \<and> \<bar>valof ratio - real_of_int v / real_of_int md\<bar> \<le> 1 / 2 ^ 52
     \<and> gray_level ratio = Inr u
     \<and> \<bar>valof u - (real_of_int v / real_of_int md * 200 + 20)\<bar> \<le> 1 / 2 ^ 42
     \<and> bg = \<lfloor>valof u\<rfloor> \<and> 20 \<le> bg \<and> bg \<le> 220 \<and> max 0 (min 255 bg) = bg
     \<and> blend_level (fst c) bg = Inr wr \<and> blend_level (fst (snd c)) bg = Inr wg
     \<and> blend_level (snd (snd c)) bg = Inr wb
     \<and> \<bar>valof wr - (real_of_int (fst c) * (1 / 10) + real_of_int bg * (9 / 10))\<bar> \<le> 1 / 2 ^ 42
     \<and> \<bar>valof wg - (real_of_int (fst (snd c)) * (1 / 10) + real_of_int bg * (9 / 10))\<bar>
          \<le> 1 / 2 ^ 42
     \<and> \<bar>valof wb - (real_of_int (snd (snd c)) * (1 / 10) + real_of_int bg * (9 / 10))\<bar>
          \<le> 1 / 2 ^ 42
     \<and> value_to_color v md c
         = Inr (min \<lfloor>valof wr\<rfloor> 255, min \<lfloor>valof wg\<rfloor> 255, min \<lfloor>valof wb\<rfloor> 255)
     \<and> 0 \<le> min \<lfloor>valof wr\<rfloor> 255 \<and> min \<lfloor>valof wr\<rfloor> 255 \<le> 255
     \<and> 0 \<le> min \<lfloor>valof wg\<rfloor> 255 \<and> min \<lfloor>valof wg\<rfloor> 255 \<le> 255
     \<and> 0 \<le> min \<lfloor>valof wb\<rfloor> 255 \<and> min \<lfloor>valof wb\<rfloor> 255 \<le> 255"
  using assms by (rule value_to_color_ok)

theorem value_to_color_channels_witness:
  "(0 :: int) \<le> 58598 \<and> (58598 :: int) \<le> 233280 \<and> (0 :: int) < 233280
   \<and> byte_tint (0, 212, 255)
   \<and> (\<exists>ratio u bg wr wg wb.
     int_true_div 58598 233280 = Inr ratio \<and> 0 \<le> valof ratio \<and> valof ratio \<le> 1
     \<and> \<bar>valof ratio - real_of_int 58598 / real_of_int 233280\<bar> \<le> 1 / 2 ^ 52
     \<and> gray_level ratio = Inr u
     \<and> \<bar>valof u - (real_of_int 58598 / real_of_int 233280 * 200 + 20)\<bar> \<le> 1 / 2 ^ 42
     \<and> bg = \<lfloor>valof u\<rfloor> \<and> 20 \<le> bg \<and> bg \<le> 220 \<and> max 0 (min 255 bg) = bg
     \<and> blend_level 0 bg = Inr wr \<and> blend_level 212 bg = Inr wg
     \<and> blend_level 255 bg = Inr wb
     \<and> \<bar>valof wr - (real_of_int 0 * (1 / 10) + real_of_int bg * (9 / 10))\<bar> \<le> 1 / 2 ^ 42
     \<and> \<bar>valof wg - (real_of_int 212 * (1 / 10) + real_of_int bg * (9 / 10))\<bar>
          \<le> 1 / 2 ^ 42
     \<and> \<bar>valof wb - (real_of_int 255 * (1 / 10) + real_of_int bg * (9 / 10))\<bar>
          \<le> 1 / 2 ^ 42
     \<and> value_to_color 58598 233280 (0, 212, 255)
         = Inr (min \<lfloor>valof wr\<rfloor> 255, min \<lfloor>valof wg\<rfloor> 255, min \<lfloor>valof wb\<rfloor> 255)
     \<and> 0 \<le> min \<lfloor>valof wr\<rfloor> 255 \<and> min \<lfloor>valof wr\<rfloor> 255 \<le> 255
     \<and> 0 \<le> min \<lfloor>valof wg\<rfloor> 255 \<and> min \<lfloor>valof wg\<rfloor> 255 \<le> 255
     \<and> 0 \<le> min \<lfloor>valof wb\<rfloor> 255 \<and> min \<lfloor>valof wb\<rfloor> 255 \<le> 255)
   \<and> value_to_color 58598 233280 (0, 212, 255) = Inr (63, 84, 88)"
proof -
  have h1: "(0 :: int) \<le> 58598" and h2: "(58598 :: int) \<le> 233280" and h3: "(0 :: int) < 233280"
    by simp_all
  have h4: "byte_tint (0, 212, 255)"
    by (simp add: byte_tint_def)
  have v: "value_to_color 58598 233280 (0, 212, 255) = Inr (63, 84, 88)"
    by code_simp
  note inst = value_to_color_channels [OF h1 h2 h3 h4, unfolded fst_conv snd_conv]
  show ?thesis
    by (intro conjI h1 h2 h3 h4 v inst)
qed

end
